theory Spec2Isabelle
  imports Main "HOL-Library.Sublist" "HOL-Library.List_Lexorder"
begin

section \<open>Python values\<close>

text \<open>
  A Python \<open>str\<close> is a sequence of Unicode code points, so it is modelled as a list of
  natural numbers; \<open>py\<close> embeds an ASCII literal.  \<open>len\<close>, slicing and \<open>in\<close> then count
  code points, as Python does.
\<close>

type_synonym pystr = "nat list"

definition py :: "string \<Rightarrow> pystr" where
  "py s = map of_char s"

text \<open>
  \<open>str.isalnum\<close> on one character.  On ASCII it is exactly the digits and the letters.
  Beyond ASCII it is read from the Unicode character database, which is not part of the
  repository: that table is the parameter \<open>U\<close>.
\<close>

definition ascii_alnum :: "nat \<Rightarrow> bool" where
  "ascii_alnum c = ((48 \<le> c \<and> c \<le> 57) \<or> (65 \<le> c \<and> c \<le> 90) \<or> (97 \<le> c \<and> c \<le> 122))"

definition isalnum :: "(nat \<Rightarrow> bool) \<Rightarrow> nat \<Rightarrow> bool" where
  "isalnum U c = (if c < 128 then ascii_alnum c else U c)"

text \<open>The characters that \<open>str.strip()\<close> removes (Python's Unicode whitespace).\<close>

definition isspace :: "nat \<Rightarrow> bool" where
  "isspace c = ((9 \<le> c \<and> c \<le> 13) \<or> (28 \<le> c \<and> c \<le> 32) \<or> c = 133 \<or> c = 160
      \<or> c = 5760 \<or> (8192 \<le> c \<and> c \<le> 8202) \<or> c = 8232 \<or> c = 8233 \<or> c = 8239
      \<or> c = 8287 \<or> c = 12288)"

definition strip :: "pystr \<Rightarrow> pystr" where
  "strip s = rev (dropWhile isspace (rev (dropWhile isspace s)))"

text \<open>
  \<open>s.replace(old, new)\<close> for a non-empty \<open>old\<close>: every non-overlapping occurrence, found
  from the left, is replaced.  (With an empty \<open>old\<close> Python inserts \<open>new\<close> around every
  character; the sources never do that, and the model returns \<open>s\<close> there.)
\<close>

function replace :: "pystr \<Rightarrow> pystr \<Rightarrow> pystr \<Rightarrow> pystr" where
  "replace old new [] = []"
| "replace old new (c # cs) =
     (if old \<noteq> [] \<and> prefix old (c # cs)
      then new @ replace old new (drop (length old) (c # cs))
      else c # replace old new cs)"
  by pat_completeness auto
termination
  by (relation "measure (\<lambda>(old, new, s). length s)") auto

definition startswith :: "pystr \<Rightarrow> pystr \<Rightarrow> bool" where
  "startswith s p = prefix p s"

definition endswith :: "pystr \<Rightarrow> pystr \<Rightarrow> bool" where
  "endswith s p = suffix p s"

text \<open>Truthiness of an optional string: \<open>None\<close> and \<open>""\<close> are false.\<close>

fun truthy_str :: "pystr option \<Rightarrow> bool" where
  "truthy_str None = False"
| "truthy_str (Some s) = (s \<noteq> [])"

section \<open>Tenants and the folder key (\<open>backup_ifix.py\<close>, \<open>backup_tenant\<close>)\<close>

text \<open>
  An owner record as the record store returns it: the identity is always there, the display
  name and the store name may be absent (or empty).
\<close>

record owner =
  owner_id :: pystr
  owner_name :: "pystr option"
  owner_storeName :: "pystr option"

text \<open>\<open>oname = owner.get("name") or owner.get("storeName") or oid\<close>\<close>

definition oname_of :: "owner \<Rightarrow> pystr" where
  "oname_of ow =
     (if truthy_str (owner_name ow) then the (owner_name ow)
      else if truthy_str (owner_storeName ow) then the (owner_storeName ow)
      else owner_id ow)"

text \<open>
  \<open>safe = "".join(c if c.isalnum() or c in "._- " else "_" for c in oname).strip().replace(" ", "_")\<close>
\<close>

definition safe_name :: "(nat \<Rightarrow> bool) \<Rightarrow> pystr \<Rightarrow> pystr" where
  "safe_name U oname =
     replace (py '' '') (py ''_'')
       (strip (concat (map (\<lambda>c. if isalnum U c \<or> c \<in> set (py ''._- '') then [c] else py ''_'') oname)))"

text \<open>\<open>folder_key = f"{safe}_{oid[:8]}"\<close>\<close>

definition folder_key :: "(nat \<Rightarrow> bool) \<Rightarrow> pystr \<Rightarrow> pystr \<Rightarrow> pystr" where
  "folder_key U oname oid = safe_name U oname @ py ''_'' @ take 8 oid"

definition folder_key_of :: "(nat \<Rightarrow> bool) \<Rightarrow> owner \<Rightarrow> pystr" where
  "folder_key_of U ow = folder_key U (oname_of ow) (owner_id ow)"

subsection \<open>The derivation in the words of the specification\<close>

text \<open>
  The characters the derivation keeps: alphanumerics, dot, underscore, hyphen and space.
\<close>

definition kept :: "(nat \<Rightarrow> bool) \<Rightarrow> nat \<Rightarrow> bool" where
  "kept U c = (isalnum U c \<or> c = 46 \<or> c = 95 \<or> c = 45 \<or> c = 32)"

text \<open>
  Keep the allowed characters and put an underscore for every other one; then put an
  underscore for every space; append an underscore and the first eight characters of the
  identity.  This is the derivation as the specification words it.
\<close>

definition spec_folder_key :: "(nat \<Rightarrow> bool) \<Rightarrow> pystr \<Rightarrow> pystr \<Rightarrow> pystr" where
  "spec_folder_key U oname oid =
     map (\<lambda>c. if c = 32 then 95 else c) (map (\<lambda>c. if kept U c then c else 95) oname)
       @ [95] @ take 8 oid"

text \<open>The same with the surrounding whitespace removed between the two replacements.\<close>

definition spec_folder_key_stripped :: "(nat \<Rightarrow> bool) \<Rightarrow> pystr \<Rightarrow> pystr \<Rightarrow> pystr" where
  "spec_folder_key_stripped U oname oid =
     map (\<lambda>c. if c = 32 then 95 else c) (strip (map (\<lambda>c. if kept U c then c else 95) oname))
       @ [95] @ take 8 oid"

text \<open>Two names differ only in disallowed characters.\<close>

definition same_up_to_disallowed :: "(nat \<Rightarrow> bool) \<Rightarrow> pystr \<Rightarrow> pystr \<Rightarrow> bool" where
  "same_up_to_disallowed U a b = list_all2 (\<lambda>x y. x = y \<or> (\<not> kept U x \<and> \<not> kept U y)) a b"


section \<open>Errors and JSON values\<close>

text \<open>The exceptions that the modelled code can raise.\<close>

datatype py_error =
  AttributeError | TypeError | ValueError | JSONDecodeError | IsADirectoryError
  | NotADirectoryError | OSError | TimeoutExpired | BadZipFile | OverflowError

text \<open>
  A value read by \<open>json.load\<close>.  An object is a Python \<open>dict\<close>: an association list in
  insertion order whose keys are distinct.  Numbers are integers here; no modelled code
  does arithmetic on a decoded number.
\<close>

datatype jval =
  JNull | JBool bool | JNum int | JStr pystr | JArr "jval list" | JObj "(pystr \<times> jval) list"

type_synonym pydict = "(pystr \<times> jval) list"

text \<open>Python truthiness (\<open>not x\<close>, \<open>if x\<close>, \<open>x or y\<close>).\<close>

fun truthy :: "jval \<Rightarrow> bool" where
  "truthy JNull = False"
| "truthy (JBool b) = b"
| "truthy (JNum n) = (n \<noteq> 0)"
| "truthy (JStr s) = (s \<noteq> [])"
| "truthy (JArr xs) = (xs \<noteq> [])"
| "truthy (JObj kvs) = (kvs \<noteq> [])"

text \<open>\<open>d.get(k)\<close>: \<open>None\<close> for a missing key.\<close>

definition dict_get :: "pydict \<Rightarrow> pystr \<Rightarrow> jval" where
  "dict_get d k = (case map_of d k of None \<Rightarrow> JNull | Some v \<Rightarrow> v)"

text \<open>
  Iterating over a decoded value (\<open>for x in v\<close>, \<open>list.extend(v)\<close>); \<open>len(v)\<close> raises the same
  \<open>TypeError\<close> on the values that cannot be iterated.  A string yields its characters, a
  dict its keys.
\<close>

fun py_iter :: "jval \<Rightarrow> py_error + jval list" where
  "py_iter (JArr xs) = Inr xs"
| "py_iter (JStr s) = Inr (map (\<lambda>c. JStr [c]) s)"
| "py_iter (JObj kvs) = Inr (map (\<lambda>kv. JStr (fst kv)) kvs)"
| "py_iter v = Inl TypeError"

section \<open>Remote storage sync: \<open>upload_gdrive\<close> (\<open>backup_ifix.py\<close>)\<close>

text \<open>
  What one \<open>subprocess.run\<close> of the sync tool does: it returns with an exit code, it runs
  into the timeout, or starting it raises something else.
\<close>

datatype attempt = Exit int | Timeout | Failure

text \<open>
  The effects of an upload: the attempts made, in order, and the arguments of the calls of
  \<open>time.sleep\<close>, in order.
\<close>

record upload_trace =
  attempts :: "int list"
  sleeps :: "int list"

definition no_trace :: upload_trace where
  "no_trace = \<lparr>attempts = [], sleeps = []\<rparr>"

text \<open>
  The body of \<open>for attempt in range(1, max_retries + 1)\<close>, over the attempt numbers still to
  come.  \<open>run a\<close> is the outcome of attempt \<open>a\<close>.  Every outcome but exit code 0 is logged
  and falls through to the back-off.  \<open>time.sleep\<close> is called outside the \<open>try\<close>: it raises
  \<open>ValueError\<close> on a negative argument and \<open>OverflowError\<close> on an argument beyond the range
  of the clock of the Python runtime.  That bound is a constant of the runtime, not of the
  repository: it is the parameter \<open>sleep_max\<close>.  When the range of attempts is exhausted the
  function returns \<open>False\<close>.
\<close>

fun upload_loop ::
  "int \<Rightarrow> (int \<Rightarrow> attempt) \<Rightarrow> int \<Rightarrow> int \<Rightarrow> int list \<Rightarrow> upload_trace
     \<Rightarrow> (py_error + bool) \<times> upload_trace"
where
  "upload_loop sleep_max run delay max_retries [] tr = (Inr False, tr)"
| "upload_loop sleep_max run delay max_retries (a # as) tr =
     (let tr1 = tr\<lparr>attempts := attempts tr @ [a]\<rparr> in
      if run a = Exit 0 then (Inr True, tr1)
      else if a < max_retries then
        (let wait = delay * a in
         if wait < 0 then (Inl ValueError, tr1)
         else if sleep_max < wait then (Inl OverflowError, tr1)
         else upload_loop sleep_max run delay max_retries as (tr1\<lparr>sleeps := sleeps tr1 @ [wait]\<rparr>))
      else upload_loop sleep_max run delay max_retries as tr1)"

definition upload_gdrive ::
  "int \<Rightarrow> (int \<Rightarrow> attempt) \<Rightarrow> int \<Rightarrow> int \<Rightarrow> (py_error + bool) \<times> upload_trace"
where
  "upload_gdrive sleep_max run delay max_retries =
     upload_loop sleep_max run delay max_retries [1..max_retries] no_trace"

text \<open>\<open>verify_upload\<close>: the listing succeeded and the expected name occurs in its output.\<close>

datatype listing = Listed int pystr | Listing_failed

fun verify_upload :: "listing \<Rightarrow> pystr \<Rightarrow> bool" where
  "verify_upload (Listed rc out) expected_file = (rc = 0 \<and> sublist expected_file out)"
| "verify_upload Listing_failed expected_file = False"

section \<open>Record source client: \<open>pb_get_all\<close> (\<open>backup_ifix.py\<close>)\<close>

text \<open>
  What a request of the record store gives: a response with a status code and a body (the
  decoded JSON, or \<open>None\<close> when the body is not JSON), or an exception of the transport.
\<close>

datatype reply = Reply nat "jval option" | Transport_error

text \<open>
  One turn of the \<open>try\<close> block, up to \<open>records.extend(items)\<close>: the page is not found (404),
  it fails (\<open>raise_for_status\<close> on a 4xx or 5xx status, a body that does not decode, a body
  that is no dict, items that cannot be iterated, a transport exception), or it yields items.
\<close>

datatype page = Not_found | Failed | Items "jval list"

fun page_of :: "reply \<Rightarrow> page" where
  "page_of Transport_error = Failed"
| "page_of (Reply st body) =
     (if st = 404 then Not_found
      else if 400 \<le> st \<and> st < 600 then Failed
      else (case body of
              Some (JObj d) \<Rightarrow>
                (case map_of d (py ''items'') of
                   None \<Rightarrow> Items []
                 | Some v \<Rightarrow> (case py_iter v of Inl e \<Rightarrow> Failed | Inr xs \<Rightarrow> Items xs))
            | _ \<Rightarrow> Failed))"

text \<open>
  The \<open>while True\<close> loop.  \<open>srv p\<close> is the reply to the request of page \<open>p\<close> (every page is
  requested at most once, since \<open>page\<close> only grows).  The result is the records returned and
  the pages requested, in order; \<open>None\<close> stands for a loop that never ends.
\<close>

partial_function (option) pb_get_all_loop ::
  "(nat \<Rightarrow> reply) \<Rightarrow> nat \<Rightarrow> nat \<Rightarrow> jval list \<Rightarrow> nat list \<Rightarrow> (jval list \<times> nat list) option"
where
  "pb_get_all_loop srv batch p records reqs =
     (case page_of (srv p) of
        Not_found \<Rightarrow> Some ([], reqs @ [p])
      | Failed \<Rightarrow> Some (records, reqs @ [p])
      | Items items \<Rightarrow>
          if length items < batch then Some (records @ items, reqs @ [p])
          else pb_get_all_loop srv batch (p + 1) (records @ items) (reqs @ [p]))"

definition pb_get_all :: "(nat \<Rightarrow> reply) \<Rightarrow> nat \<Rightarrow> (jval list \<times> nat list) option" where
  "pb_get_all srv batch = pb_get_all_loop srv batch 1 [] []"

text \<open>
  The record store's listing of a collection that holds \<open>xs\<close>, with \<open>perPage = batch\<close>: page
  \<open>p\<close> is the \<open>p\<close>-th slice of \<open>batch\<close> records.  (The store is an external collaborator; this
  is the behaviour the specification assumes of it.)
\<close>

definition serve :: "jval list \<Rightarrow> nat \<Rightarrow> nat \<Rightarrow> reply" where
  "serve xs batch p = Reply 200 (Some (JObj [(py ''items'', JArr (take batch (drop ((p - 1) * batch) xs)))]))"

text \<open>The items a reply contributes to the records (none when the page fails).\<close>

definition items_of :: "reply \<Rightarrow> jval list" where
  "items_of r = (case page_of r of Items xs \<Rightarrow> xs | _ \<Rightarrow> [])"

text \<open>The pages \<open>1, ..., n\<close> are all there and full: the loop goes on after each of them.\<close>

definition full_pages :: "(nat \<Rightarrow> reply) \<Rightarrow> nat \<Rightarrow> nat \<Rightarrow> bool" where
  "full_pages srv batch n = (\<forall>q \<in> set [1..<n + 1]. \<exists>xs. page_of (srv q) = Items xs \<and> batch \<le> length xs)"


section \<open>Restore reconciler: the record store (\<open>restore_ifix.py\<close>)\<close>

text \<open>
  The requests that \<open>restore_collection_data\<close> sends: a lookup, a partial update and a create,
  each with the collection, and the first two with the identity of the record.
\<close>

datatype request = Get pystr jval | Patch pystr jval pydict | Post pystr pydict

text \<open>
  The store is a collaborator: a state of its own and a reply to every request.  The world
  of a restore is the state of the store and the requests sent so far.
\<close>

type_synonym 's server = "'s \<Rightarrow> request \<Rightarrow> reply \<times> 's"

record 's world =
  srv_state :: 's
  trace :: "request list"

definition call :: "'s server \<Rightarrow> request \<Rightarrow> 's world \<Rightarrow> reply \<times> 's world" where
  "call srv rq w =
     (case srv (srv_state w) rq of (r, s') \<Rightarrow> (r, \<lparr>srv_state = s', trace = trace w @ [rq]\<rparr>))"

text \<open>The four counters, of \<open>restore_collection_data\<close> and of the totals.\<close>

record counts =
  created :: nat
  updated :: nat
  skipped :: nat
  errors :: nat

definition no_counts :: counts where
  "no_counts = \<lparr>created = 0, updated = 0, skipped = 0, errors = 0\<rparr>"

definition system_fields :: "pystr list" where
  "system_fields = [py ''id'', py ''created'', py ''updated'', py ''collectionId'',
     py ''collectionName'', py ''expand'']"

text \<open>
  The body of \<open>for record in records\<close>.  \<open>record.get("id")\<close> is outside the \<open>try\<close>: on a value
  that is no dict it raises.  Inside the \<open>try\<close>, an exception of a request counts as an
  error.  A created record carries its identity as the last field.
\<close>

fun restore_record ::
  "'s server \<Rightarrow> pystr \<Rightarrow> bool \<Rightarrow> jval \<Rightarrow> counts \<Rightarrow> 's world \<Rightarrow> (py_error + counts) \<times> 's world"
where
  "restore_record srv collection dry_run (JObj record) c w =
     (let record_id = dict_get record (py ''id'') in
      if \<not> truthy record_id then (Inr (c\<lparr>skipped := skipped c + 1\<rparr>), w)
      else if dry_run then (Inr (c\<lparr>created := created c + 1\<rparr>), w)
      else
        (case call srv (Get collection record_id) w of
           (Transport_error, w1) \<Rightarrow> (Inr (c\<lparr>errors := errors c + 1\<rparr>), w1)
         | (Reply st body, w1) \<Rightarrow>
             (let data = filter (\<lambda>kv. fst kv \<notin> set system_fields) record in
              if st = 200 then
                (case call srv (Patch collection record_id data) w1 of
                   (Transport_error, w2) \<Rightarrow> (Inr (c\<lparr>errors := errors c + 1\<rparr>), w2)
                 | (Reply st2 body2, w2) \<Rightarrow>
                     if st2 = 200 then (Inr (c\<lparr>updated := updated c + 1\<rparr>), w2)
                     else (Inr (c\<lparr>errors := errors c + 1\<rparr>), w2))
              else
                (case call srv (Post collection (data @ [(py ''id'', record_id)])) w1 of
                   (Transport_error, w2) \<Rightarrow> (Inr (c\<lparr>errors := errors c + 1\<rparr>), w2)
                 | (Reply st2 body2, w2) \<Rightarrow>
                     if st2 = 200 then (Inr (c\<lparr>created := created c + 1\<rparr>), w2)
                     else (Inr (c\<lparr>errors := errors c + 1\<rparr>), w2)))))"
| "restore_record srv collection dry_run v c w = (Inl AttributeError, w)"

fun restore_loop ::
  "'s server \<Rightarrow> pystr \<Rightarrow> bool \<Rightarrow> jval list \<Rightarrow> counts \<Rightarrow> 's world \<Rightarrow> (py_error + counts) \<times> 's world"
where
  "restore_loop srv collection dry_run [] c w = (Inr c, w)"
| "restore_loop srv collection dry_run (r # rs) c w =
     (case restore_record srv collection dry_run r c w of
        (Inl e, w') \<Rightarrow> (Inl e, w')
      | (Inr c', w') \<Rightarrow> restore_loop srv collection dry_run rs c' w')"

definition restore_collection_data ::
  "'s server \<Rightarrow> pystr \<Rightarrow> jval list \<Rightarrow> bool \<Rightarrow> 's world \<Rightarrow> (py_error + counts) \<times> 's world"
where
  "restore_collection_data srv collection records dry_run w =
     restore_loop srv collection dry_run records no_counts w"

text \<open>A record that carries an identity: a dict whose \<open>id\<close> is truthy.\<close>

fun has_identity :: "jval \<Rightarrow> bool" where
  "has_identity (JObj record) = truthy (dict_get record (py ''id''))"
| "has_identity v = False"

fun is_dict :: "jval \<Rightarrow> bool" where
  "is_dict (JObj record) = True"
| "is_dict v = False"

fun identity :: "jval \<Rightarrow> jval" where
  "identity (JObj record) = dict_get record (py ''id'')"
| "identity v = JNull"

subsection \<open>A record store with create, read and update by identity\<close>

text \<open>
  The behaviour that the specification assumes of the record store (its section 6, (e)): a
  lookup finds a record exactly when it was stored, an update of a stored record succeeds
  and keeps it stored, a create of a record with a fresh identity succeeds and stores it.
  \<open>faults\<close> is a plan of failures: a request with a planned reply gets that reply and has no
  effect.
\<close>

type_synonym db = "pystr \<times> jval \<Rightarrow> pydict option"

definition pb_store :: "(request \<Rightarrow> reply option) \<Rightarrow> db server" where
  "pb_store faults s rq =
     (case faults rq of
        Some r \<Rightarrow> (r, s)
      | None \<Rightarrow>
          (case rq of
             Get c i \<Rightarrow>
               (case s (c, i) of
                  Some d \<Rightarrow> (Reply 200 (Some (JObj d)), s)
                | None \<Rightarrow> (Reply 404 None, s))
           | Patch c i data \<Rightarrow>
               (case s (c, i) of
                  Some d \<Rightarrow>
                    (let d' = data @ filter (\<lambda>kv. fst kv \<notin> set (map fst data)) d
                     in (Reply 200 (Some (JObj d')), s((c, i) \<mapsto> d')))
                | None \<Rightarrow> (Reply 404 None, s))
           | Post c data \<Rightarrow>
               (let i = dict_get data (py ''id'') in
                if truthy i \<and> s (c, i) = None
                then (Reply 200 (Some (JObj data)), s((c, i) \<mapsto> data))
                else (Reply 400 None, s))))"

definition empty_world :: "db world" where
  "empty_world = \<lparr>srv_state = Map.empty, trace = []\<rparr>"

text \<open>
  The envelope that \<open>backup_tenant\<close> writes for a collection (\<open>backup_ifix.py\<close>, the
  \<open>json.dump\<close> in the loop over \<open>TENANT_COLLECTIONS\<close>), with the time stamp as a parameter.
\<close>

definition envelope :: "pystr \<Rightarrow> pystr \<Rightarrow> pystr \<Rightarrow> jval list \<Rightarrow> jval" where
  "envelope col oid exported_at records =
     JObj [(py ''collection'', JStr col), (py ''owner_id'', JStr oid),
           (py ''exported_at'', JStr exported_at), (py ''count'', JNum (int (length records))),
           (py ''records'', JArr records)]"

section \<open>Restore reconciler: \<open>restore_from_zip\<close> and \<open>restore_files\<close>\<close>

text \<open>
  The extracted archive: a directory is the list of its entries in the order in which the
  file system lists them; a file is what \<open>json.load\<close> makes of it, \<open>None\<close> when it is not
  JSON.
\<close>

datatype node = File "jval option" | Dir "(pystr \<times> node) list"

type_synonym entries = "(pystr \<times> node) list"

fun is_file :: "node \<Rightarrow> bool" where
  "is_file (File c) = True"
| "is_file (Dir es) = False"

definition has_summary :: "entries \<Rightarrow> bool" where
  "has_summary es = list_ex (\<lambda>e. fst e = py ''summary.json'' \<and> is_file (snd e)) es"

text \<open>
  \<open>for root, dirs, files in os.walk(extract_dir): if "summary.json" in files: ... break\<close>:
  top-down, so the first directory in pre-order that holds a file \<open>summary.json\<close>.  The
  result is that directory (\<open>os.path.dirname(summary_path)\<close>).
\<close>

fun find_summary :: "entries \<Rightarrow> entries option"
  and find_summary_below :: "entries \<Rightarrow> entries option"
where
  "find_summary es = (if has_summary es then Some es else find_summary_below es)"
| "find_summary_below [] = None"
| "find_summary_below ((n, File c) # es) = find_summary_below es"
| "find_summary_below ((n, Dir d) # es) =
     (case find_summary d of Some r \<Rightarrow> Some r | None \<Rightarrow> find_summary_below es)"


text \<open>
  \<open>with open(summary_path) as f: summary = json.load(f)\<close> and the three \<open>summary.get\<close> of the
  log line: they raise when the file is not JSON or holds no dict.
\<close>

fun load_summary :: "entries \<Rightarrow> py_error + unit" where
  "load_summary [] = Inr ()"
| "load_summary ((n, File c) # es) =
     (if n = py ''summary.json'' then
        (case c of
           None \<Rightarrow> Inl JSONDecodeError
         | Some (JObj d) \<Rightarrow> Inr ()
         | Some v \<Rightarrow> Inl AttributeError)
      else load_summary es)"
| "load_summary ((n, Dir d) # es) = load_summary es"

definition add_counts :: "counts \<Rightarrow> counts \<Rightarrow> counts" where
  "add_counts tot c =
     \<lparr>created = created tot + created c, updated = updated tot + updated c,
      skipped = skipped tot + skipped c, errors = errors tot + errors c\<rparr>"

text \<open>
  The body of \<open>for fname in os.listdir(data_dir)\<close> for one entry.  Opening a directory and
  decoding a file that is not JSON raise; so do \<open>data.get\<close> on a value that is no dict and
  \<open>len(records)\<close> on a value without a length.
\<close>

fun restore_entry ::
  "'s server \<Rightarrow> bool \<Rightarrow> pystr \<times> node \<Rightarrow> counts \<Rightarrow> 's world \<Rightarrow> (py_error + counts) \<times> 's world"
where
  "restore_entry srv dry_run (fname, nd) tot w =
     (if \<not> endswith fname (py ''.json'') \<or> fname = py ''summary.json'' then (Inr tot, w)
      else
        (let collection = replace (py ''.json'') [] fname in
         case nd of
           Dir d \<Rightarrow> (Inl IsADirectoryError, w)
         | File None \<Rightarrow> (Inl JSONDecodeError, w)
         | File (Some (JObj data)) \<Rightarrow>
             (let records = (case map_of data (py ''records'') of None \<Rightarrow> JArr [] | Some v \<Rightarrow> v) in
              if \<not> truthy records then (Inr tot, w)
              else
                (case py_iter records of
                   Inl e \<Rightarrow> (Inl e, w)
                 | Inr rs \<Rightarrow>
                     (case restore_collection_data srv collection rs dry_run w of
                        (Inl e, w') \<Rightarrow> (Inl e, w')
                      | (Inr c, w') \<Rightarrow> (Inr (add_counts tot c), w'))))
         | File (Some v) \<Rightarrow> (Inl AttributeError, w)))"

fun restore_entries ::
  "'s server \<Rightarrow> bool \<Rightarrow> entries \<Rightarrow> counts \<Rightarrow> 's world \<Rightarrow> (py_error + counts) \<times> 's world"
where
  "restore_entries srv dry_run [] tot w = (Inr tot, w)"
| "restore_entries srv dry_run (e # es) tot w =
     (case restore_entry srv dry_run e tot w of
        (Inl err, w') \<Rightarrow> (Inl err, w')
      | (Inr tot', w') \<Rightarrow> restore_entries srv dry_run es tot' w')"

text \<open>
  \<open>restore_files\<close>: the attachments under \<open>_files/{collection}/{record_id}/\<close> are counted, in
  dry-run mode and otherwise alike; nothing is sent to the store.  \<open>os.listdir\<close> raises when
  \<open>_files\<close> is a file.
\<close>

fun subdirs :: "entries \<Rightarrow> entries list" where
  "subdirs [] = []"
| "subdirs ((n, Dir d) # es) = d # subdirs es"
| "subdirs ((n, File c) # es) = subdirs es"

definition restore_files :: "entries \<Rightarrow> bool \<Rightarrow> py_error + nat" where
  "restore_files data_dir dry_run =
     (case map_of data_dir (py ''_files'') of
        None \<Rightarrow> Inr 0
      | Some (File c) \<Rightarrow> Inl NotADirectoryError
      | Some (Dir cols) \<Rightarrow>
          Inr (sum_list (map (\<lambda>col_dir. sum_list (map length (subdirs col_dir))) (subdirs cols))))"

text \<open>
  \<open>restore_from_zip\<close> on the extracted archive.  The function logs the totals at its end and
  returns nothing; the model returns the totals it logs.  An exception leaves through the
  \<open>finally\<close> and no totals are logged.
\<close>

definition restore_from_zip ::
  "'s server \<Rightarrow> entries \<Rightarrow> bool \<Rightarrow> 's world \<Rightarrow> (py_error + counts) \<times> 's world"
where
  "restore_from_zip srv extract_dir dry_run w =
     (let summary_dir = find_summary extract_dir;
          data_dir = (case summary_dir of Some d \<Rightarrow> d | None \<Rightarrow> extract_dir)
      in case (case summary_dir of Some d \<Rightarrow> load_summary d | None \<Rightarrow> Inr ()) of
           Inl e \<Rightarrow> (Inl e, w)
         | Inr u \<Rightarrow>
             (case restore_entries srv dry_run data_dir no_counts w of
                (Inl e, w') \<Rightarrow> (Inl e, w')
              | (Inr tot, w') \<Rightarrow>
                  (case restore_files data_dir dry_run of
                     Inl e \<Rightarrow> (Inl e, w')
                   | Inr n \<Rightarrow> (Inr tot, w'))))"

section \<open>Restore reconciler: \<open>restore_latest\<close>\<close>

text \<open>
  An entry of \<open>rclone_list_files\<close>: size and name.  The function sorts the parsed lines by
  name, descending; a listing that fails gives the empty list.
\<close>

record remote_file =
  file_size :: int
  file_name :: pystr

definition rclone_list_files :: "remote_file list option \<Rightarrow> remote_file list" where
  "rclone_list_files ls =
     (case ls of None \<Rightarrow> [] | Some files \<Rightarrow> rev (sort_key file_name (rev files)))"

text \<open>
  A file of the download directory as \<open>restore_from_zip\<close> meets it: no zip archive
  (\<open>zipfile\<close> raises), or an archive with the tree it extracts to.
\<close>

datatype archive = Bad_zip | Zip entries

text \<open>
  What the copy of an archive into the download directory does: it runs into its timeout
  (raised: the call is outside any \<open>try\<close>), or it ends with an exit code and has written the
  file under the name of the archive, or has written nothing.
\<close>

datatype copy = Copy_timeout | Copied int "archive option"

text \<open>
  The remote side: the folders under the backup root (\<open>rclone_list_dirs\<close>), the listing of
  each folder, and the copy of a named archive of a folder.
\<close>

record remote =
  list_dirs :: "pystr list"
  list_files :: "pystr \<Rightarrow> remote_file list option"
  copy_archive :: "pystr \<Rightarrow> pystr \<Rightarrow> copy"

text \<open>
  The download directory \<open>/tmp/ifix_restore_dl\<close>, shared by all folders of an invocation:
  the files in it, by name.
\<close>

type_synonym local_dir = "pystr \<Rightarrow> archive option"

text \<open>
  The folders that the loop visits: \<open>[d for d in tenant_dirs if tenant_filter in d]\<close> when a
  filter is given (and not empty), then the folders that do not start with an underscore,
  sorted.  \<open>None\<close>: the filter matches nothing and the function returns at once.
\<close>

definition selected_dirs :: "pystr option \<Rightarrow> pystr list \<Rightarrow> pystr list option" where
  "selected_dirs tenant_filter tenant_dirs =
     (let ds = (if truthy_str tenant_filter
                then filter (\<lambda>d. sublist (the tenant_filter) d) tenant_dirs else tenant_dirs)
      in if truthy_str tenant_filter \<and> ds = [] then None
         else Some (sort (filter (\<lambda>d. \<not> startswith d (py ''_'')) ds)))"

text \<open>\<open>zips[0]\<close> of the sorted listing, when there is a zip.\<close>

definition latest_zip :: "remote \<Rightarrow> pystr \<Rightarrow> pystr option" where
  "latest_zip rmt tdir =
     (case filter (\<lambda>f. endswith (file_name f) (py ''.zip'')) (rclone_list_files (list_files rmt tdir)) of
        [] \<Rightarrow> None
      | f # fs \<Rightarrow> Some (file_name f))"

text \<open>
  The loop over the selected folders.  A folder without zip is skipped.  The copy writes
  into the shared download directory; with an exit code other than 0 the folder is skipped;
  otherwise the file of that name in the download directory is restored if there is one,
  whichever copy wrote it.  Beside the world, the result holds the archives that were
  handed to \<open>restore_from_zip\<close>, in order, each with its folder.
\<close>

fun restore_dirs ::
  "'s server \<Rightarrow> remote \<Rightarrow> bool \<Rightarrow> pystr list \<Rightarrow> local_dir \<Rightarrow> (pystr \<times> pystr) list \<Rightarrow> 's world
     \<Rightarrow> (py_error + unit) \<times> (pystr \<times> pystr) list \<times> 's world"
where
  "restore_dirs srv rmt dry_run [] local_files restored w = (Inr (), restored, w)"
| "restore_dirs srv rmt dry_run (tdir # ds) local_files restored w =
     (case latest_zip rmt tdir of
        None \<Rightarrow> restore_dirs srv rmt dry_run ds local_files restored w
      | Some latest \<Rightarrow>
          (case copy_archive rmt tdir latest of
             Copy_timeout \<Rightarrow> (Inl TimeoutExpired, restored, w)
           | Copied returncode written \<Rightarrow>
               (let local1 = (case written of None \<Rightarrow> local_files
                              | Some a \<Rightarrow> local_files(latest \<mapsto> a))
                in if returncode \<noteq> 0 then restore_dirs srv rmt dry_run ds local1 restored w
                   else
                     (case local1 latest of
                        None \<Rightarrow> restore_dirs srv rmt dry_run ds local1 restored w
                      | Some Bad_zip \<Rightarrow> (Inl BadZipFile, restored @ [(tdir, latest)], w)
                      | Some (Zip extract_dir) \<Rightarrow>
                          (case restore_from_zip srv extract_dir dry_run w of
                             (Inl e, w') \<Rightarrow> (Inl e, restored @ [(tdir, latest)], w')
                           | (Inr tot, w') \<Rightarrow>
                               restore_dirs srv rmt dry_run ds local1 (restored @ [(tdir, latest)]) w')))))"

text \<open>
  \<open>restore_latest\<close>; \<open>local_files\<close> is what the download directory holds when the function
  starts (\<open>os.makedirs(local_dir, exist_ok=True)\<close> keeps what is there).
\<close>

definition restore_latest ::
  "'s server \<Rightarrow> remote \<Rightarrow> pystr option \<Rightarrow> bool \<Rightarrow> local_dir \<Rightarrow> 's world
     \<Rightarrow> (py_error + unit) \<times> (pystr \<times> pystr) list \<times> 's world"
where
  "restore_latest srv rmt tenant_filter dry_run local_files w =
     (case selected_dirs tenant_filter (list_dirs rmt) of
        None \<Rightarrow> (Inr (), [], w)
      | Some ds \<Rightarrow> restore_dirs srv rmt dry_run ds local_files [] w)"

subsection \<open>Restoring a list of archives, one after the other\<close>





section \<open>Backup orchestrator: \<open>main\<close> (\<open>backup_ifix.py\<close>)\<close>

text \<open>
  The settings that the run reads, after \<open>{**DEFAULT_CONFIG, **json.load(f)}\<close>: every key
  has its default, and the values have the types of the defaults.
\<close>

record config =
  pb_admin_email :: pystr
  pb_admin_pass :: pystr
  gdrive_root :: pystr
  backup_tmp_dir :: pystr
  include_pb_backup :: bool
  cfg_max_retries :: int
  cfg_retry_delay_sec :: int

text \<open>
  The configuration file as \<open>load_config\<close> finds it: it is not there, or creating, opening
  or decoding it raises, or it is read and merged with the defaults.
\<close>

datatype config_file = No_config_file | Config_error py_error | Config config

text \<open>How a function that may end the process comes back: \<open>sys.exit\<close>, an exception, a value.\<close>

datatype 'a ending = Sys_exit int | Raised py_error | Returned 'a

text \<open>
  \<open>load_config\<close>: without a file it writes the defaults and exits with 0; with an empty
  email or password it logs an error and exits with 1.
\<close>

fun load_config :: "config_file \<Rightarrow> config ending" where
  "load_config No_config_file = Sys_exit 0"
| "load_config (Config_error e) = Raised e"
| "load_config (Config cfg) =
     (if pb_admin_email cfg = [] \<or> pb_admin_pass cfg = [] then Sys_exit 1 else Returned cfg)"

text \<open>
  What the run meets outside itself: the check of the sync tool (\<open>check_rclone\<close>: it
  returns a truth value, or its subprocess raises, as on a timeout), the login (an exception
  or a token), the creation of the working directory (which may raise), the full snapshot
  (\<open>pb_create_backup\<close>: a path or \<open>None\<close>), the building of the archive of the global
  collections (local file operations, which may raise), the owners fetched, for each owner
  the export of its collections into the tenant directory and the zip file (which may raise;
  otherwise the record counts and the number of files), the outcome of every attempt to copy
  a path to a remote folder, the listing of a remote folder, and the greatest argument that
  \<open>time.sleep\<close> accepts.
\<close>

record backup_env =
  rclone_check :: "py_error + bool"
  login :: "py_error + pystr"
  makedirs_tmp :: "py_error option"
  pb_backup :: "pystr option"
  global_zip :: "py_error + pystr"
  owners :: "owner list"
  tenant_export :: "owner \<Rightarrow> py_error + (pystr \<times> nat) list \<times> nat"
  copy_attempt :: "pystr \<Rightarrow> pystr \<Rightarrow> int \<Rightarrow> attempt"
  remote_listing :: "pystr \<Rightarrow> listing"
  sleep_limit :: int

text \<open>The \<open>summary\<close> dict of \<open>backup_tenant\<close> (its \<open>backup_version\<close> is the constant "2.0").\<close>

record summary =
  tenant :: pystr
  sum_owner_id :: pystr
  date :: pystr
  collections :: "(pystr \<times> nat) list"
  files_count :: nat

text \<open>
  \<open>backup_tenant\<close>: the folder key, then the export (fetching, writing, zipping), which may
  raise; it returns the folder key, the path and the name of the zip file, and the summary.
\<close>

definition backup_tenant ::
  "(nat \<Rightarrow> bool) \<Rightarrow> config \<Rightarrow> backup_env \<Rightarrow> owner \<Rightarrow> pystr
     \<Rightarrow> py_error + pystr \<times> pystr \<times> pystr \<times> summary"
where
  "backup_tenant U cfg env ow date_str =
     (let oid = owner_id ow;
          oname = oname_of ow;
          fkey = folder_key U oname oid
      in case tenant_export env ow of
           Inl e \<Rightarrow> Inl e
         | Inr (cols, nfiles) \<Rightarrow>
             (let zip_name = py ''backup_'' @ date_str @ py ''.zip'';
                  zip_path = backup_tmp_dir cfg @ py ''/'' @ fkey @ py ''/'' @ zip_name
              in Inr (fkey, zip_path, zip_name,
                      \<lparr>tenant = oname, sum_owner_id = oid, date = date_str,
                       collections = cols, files_count = nfiles\<rparr>)))"

text \<open>The upload of a path to a remote folder, with the retry settings of the run.\<close>

definition upload :: "config \<Rightarrow> backup_env \<Rightarrow> pystr \<Rightarrow> pystr \<Rightarrow> py_error + bool" where
  "upload cfg env local_path gdrive_folder =
     fst (upload_gdrive (sleep_limit env) (copy_attempt env local_path gdrive_folder)
            (cfg_retry_delay_sec cfg) (cfg_max_retries cfg))"

text \<open>The entries of the list \<open>errors\<close>, of the list \<open>results\<close>, and the lines logged by the tenant loop.\<close>

datatype run_error =
  Full_db_upload_failed | Full_db_backup_failed | Global_upload_failed
  | Tenant_upload_failed pystr | Tenant_backup_error pystr py_error

datatype upload_status = OK | FAILED | ERROR

datatype result =
  Summary_result summary upload_status
  | Error_result pystr pystr py_error

fun upload_of :: "result \<Rightarrow> upload_status" where
  "upload_of (Summary_result s u) = u"
| "upload_of (Error_result oname oid e) = ERROR"

datatype log_line = Warn_verify_failed pystr | Error_backup_tenant pystr py_error

record tenant_state =
  errs :: "run_error list"
  results :: "result list"
  logged :: "log_line list"

text \<open>
  The body of \<open>for owner in owners\<close>.  Everything after the first line is inside the \<open>try\<close>: an
  exception of \<open>backup_tenant\<close> or of \<open>upload_gdrive\<close> is caught, logged, and recorded in both
  lists; \<open>verify_upload\<close> catches its own exceptions.
\<close>

definition tenant_step ::
  "(nat \<Rightarrow> bool) \<Rightarrow> config \<Rightarrow> backup_env \<Rightarrow> pystr \<Rightarrow> owner \<Rightarrow> tenant_state \<Rightarrow> tenant_state"
where
  "tenant_step U cfg env date_str ow st =
     (let oname = oname_of ow;
          caught = (\<lambda>e. st\<lparr>errs := errs st @ [Tenant_backup_error oname e],
                            results := results st @ [Error_result oname (owner_id ow) e],
                            logged := logged st @ [Error_backup_tenant oname e]\<rparr>)
      in case backup_tenant U cfg env ow date_str of
           Inl e \<Rightarrow> caught e
         | Inr (fkey, zip_path, zip_name, summ) \<Rightarrow>
             (let gdrive_dest = gdrive_root cfg @ py ''/'' @ fkey in
              case upload cfg env zip_path gdrive_dest of
                Inl e \<Rightarrow> caught e
              | Inr ok \<Rightarrow>
                  (let st1 = (if ok \<and> \<not> verify_upload (remote_listing env gdrive_dest) zip_name
                              then st\<lparr>logged := logged st @ [Warn_verify_failed oname]\<rparr> else st);
                       st2 = st1\<lparr>results := results st1 @ [Summary_result summ (if ok then OK else FAILED)]\<rparr>
                   in if \<not> ok then st2\<lparr>errs := errs st2 @ [Tenant_upload_failed oname]\<rparr> else st2)))"

fun tenant_loop ::
  "(nat \<Rightarrow> bool) \<Rightarrow> config \<Rightarrow> backup_env \<Rightarrow> pystr \<Rightarrow> owner list \<Rightarrow> tenant_state \<Rightarrow> tenant_state"
where
  "tenant_loop U cfg env date_str [] st = st"
| "tenant_loop U cfg env date_str (ow # ows) st =
     tenant_loop U cfg env date_str ows (tenant_step U cfg env date_str ow st)"

text \<open>Stage 1, the full snapshot: the errors it appends, or the exception that leaves it.\<close>

definition stage_fulldb :: "config \<Rightarrow> backup_env \<Rightarrow> py_error + run_error list" where
  "stage_fulldb cfg env =
     (if include_pb_backup cfg then
        (case pb_backup env of
           Some pb_zip \<Rightarrow>
             (case upload cfg env pb_zip (gdrive_root cfg @ py ''/_fulldb'') of
                Inl e \<Rightarrow> Inl e
              | Inr ok \<Rightarrow> Inr (if \<not> ok then [Full_db_upload_failed] else []))
         | None \<Rightarrow> Inr [Full_db_backup_failed])
      else Inr [])"

text \<open>Stage 2, the global collections.\<close>

definition stage_global :: "config \<Rightarrow> backup_env \<Rightarrow> py_error + run_error list" where
  "stage_global cfg env =
     (case global_zip env of
        Inl e \<Rightarrow> Inl e
      | Inr global_zip_path \<Rightarrow>
          (case upload cfg env global_zip_path (gdrive_root cfg @ py ''/_global'') of
             Inl e \<Rightarrow> Inl e
           | Inr ok \<Rightarrow> Inr (if \<not> ok then [Global_upload_failed] else [])))"

text \<open>
  How the process ends: its exit code with the lists \<open>errors\<close> and \<open>results\<close> and the log of
  the tenant loop as they are then.  An exception that nothing catches ends the process
  with exit code 1.
\<close>

record run =
  exit_code :: int
  run_errors :: "run_error list"
  run_results :: "result list"
  run_log :: "log_line list"

definition ended :: "int \<Rightarrow> run_error list \<Rightarrow> run" where
  "ended n es = \<lparr>exit_code = n, run_errors = es, run_results = [], run_log = []\<rparr>"

text \<open>
  \<open>main\<close> after \<open>load_config\<close>: \<open>sys.exit(1)\<close> when the sync tool is missing or the login
  raises, before the lists exist; then the working directory, the stages 1 and 2, the
  tenant loop; at the end \<open>sys.exit(2)\<close> if \<open>errors\<close> is not empty, and the process ends with
  0 otherwise.  (The clean-up, the summary and the notification catch their own exceptions.)
\<close>

definition run_stages :: "(nat \<Rightarrow> bool) \<Rightarrow> config \<Rightarrow> backup_env \<Rightarrow> pystr \<Rightarrow> run" where
  "run_stages U cfg env date_str =
     (case rclone_check env of
        Inl e \<Rightarrow> ended 1 []
      | Inr ok \<Rightarrow>
          if \<not> ok then ended 1 []
          else (case login env of
            Inl e \<Rightarrow> ended 1 []
          | Inr token \<Rightarrow>
              (case makedirs_tmp env of
                 Some e \<Rightarrow> ended 1 []
               | None \<Rightarrow>
                   (case stage_fulldb cfg env of
                      Inl e \<Rightarrow> ended 1 []
                    | Inr errors1 \<Rightarrow>
                        (case stage_global cfg env of
                           Inl e \<Rightarrow> ended 1 errors1
                         | Inr errors2 \<Rightarrow>
                             (let st = tenant_loop U cfg env date_str (owners env)
                                         \<lparr>errs = errors1 @ errors2, results = [], logged = []\<rparr>
                              in \<lparr>exit_code = (if errs st \<noteq> [] then 2 else 0), run_errors = errs st,
                                  run_results = results st, run_log = logged st\<rparr>))))))"

text \<open>\<open>main\<close>: \<open>cfg = load_config()\<close> first, then the rest.\<close>

definition main :: "(nat \<Rightarrow> bool) \<Rightarrow> config_file \<Rightarrow> backup_env \<Rightarrow> pystr \<Rightarrow> run" where
  "main U cf env date_str =
     (case load_config cf of
        Sys_exit n \<Rightarrow> ended n []
      | Raised e \<Rightarrow> ended 1 []
      | Returned cfg \<Rightarrow> run_stages U cfg env date_str)"



text \<open>What the tenant loop records for one owner, on its own.\<close>

definition tenant_result :: "(nat \<Rightarrow> bool) \<Rightarrow> config \<Rightarrow> backup_env \<Rightarrow> pystr \<Rightarrow> owner \<Rightarrow> result" where
  "tenant_result U cfg env date_str ow =
     last (results (tenant_step U cfg env date_str ow \<lparr>errs = [], results = [], logged = []\<rparr>))"

definition tenant_errors ::
  "(nat \<Rightarrow> bool) \<Rightarrow> config \<Rightarrow> backup_env \<Rightarrow> pystr \<Rightarrow> owner \<Rightarrow> run_error list" where
  "tenant_errors U cfg env date_str ow =
     errs (tenant_step U cfg env date_str ow \<lparr>errs = [], results = [], logged = []\<rparr>)"



section \<open>A small run, for the concrete instances below\<close>

definition example_cfg :: config where
  "example_cfg = \<lparr>pb_admin_email = py ''admin@example.com'', pb_admin_pass = py ''secret'',
     gdrive_root = py ''iFix-Pro-Backups'', backup_tmp_dir = py ''/tmp/ifix_backup'',
     include_pb_backup = False, cfg_max_retries = 1, cfg_retry_delay_sec = 10\<rparr>"

definition good_owner :: owner where
  "good_owner = \<lparr>owner_id = py ''abcdefghijkl'', owner_name = Some (py ''Toko #1''), owner_storeName = None\<rparr>"

definition bad_owner :: owner where
  "bad_owner = \<lparr>owner_id = py ''zzzzzzzzzzzz'', owner_name = None, owner_storeName = Some (py ''Kios'')\<rparr>"

text \<open>
  Two owners; the export of the second raises; every copy succeeds at once; no listing of
  a remote folder succeeds, so no upload is verified.
\<close>

definition example_env :: backup_env where
  "example_env = \<lparr>rclone_check = Inr True, login = Inr (py ''token''), makedirs_tmp = None,
     pb_backup = None,
     global_zip = Inr (py ''/tmp/ifix_backup/_global/backup_d.zip''),
     owners = [good_owner, bad_owner],
     tenant_export = (\<lambda>ow. if owner_id ow = py ''zzzzzzzzzzzz'' then Inl OSError else Inr ([(py ''users'', 2)], 0)),
     copy_attempt = (\<lambda>local_path dest a. Exit 0),
     remote_listing = (\<lambda>dest. Listing_failed),
     sleep_limit = 9223372036\<rparr>"

text \<open>
  A tenant archive as \<open>backup_tenant\<close> lays it out (every file under the directory of the
  run date), with one collection of one record; the same archive without \<open>summary.json\<close>,
  which is also how \<open>main\<close> lays out the archive of the global collections.
\<close>

definition example_record :: jval where
  "example_record = JObj [(py ''id'', JStr (py ''r1'')), (py ''name'', JStr (py ''Ana'')),
     (py ''created'', JStr (py ''2024-01-01''))]"

definition example_users :: node where
  "example_users = File (Some (envelope (py ''users'') (py ''abcdefghijkl'') (py ''2024-01-01T00:00'') [example_record]))"

definition example_archive :: entries where
  "example_archive =
     [(py ''2024-01-01_0000'',
       Dir [(py ''users.json'', example_users),
            (py ''summary.json'', File (Some (JObj [(py ''tenant'', JStr (py ''Toko #1''))])))])]"

definition example_archive_no_summary :: entries where
  "example_archive_no_summary = [(py ''2024-01-01_0000'', Dir [(py ''users.json'', example_users)])]"

text \<open>A store without failures, and one where every update fails.\<close>

definition no_faults :: "request \<Rightarrow> reply option" where
  "no_faults rq = None"

fun patch_faults :: "request \<Rightarrow> reply option" where
  "patch_faults (Patch c i data) = Some (Reply 500 None)"
| "patch_faults rq = None"

text \<open>
  A second tenant archive, with another record; a backup root with three tenant folders and
  a system folder, where every folder lists two archives and the download gives the first
  example archive for \<open>Toko_A\<close> and the second for every other folder; the same root when
  no copy succeeds, and when the archive of \<open>Toko_A\<close> is no zip file.
\<close>

definition example_record_b :: jval where
  "example_record_b = JObj [(py ''id'', JStr (py ''r2'')), (py ''name'', JStr (py ''Budi''))]"

definition example_archive_b :: entries where
  "example_archive_b =
     [(py ''2024-01-02_0000'',
       Dir [(py ''users.json'',
             File (Some (envelope (py ''users'') (py ''mnopqrstuvwx'') (py ''2024-01-02T00:00'') [example_record_b]))),
            (py ''summary.json'', File (Some (JObj [(py ''tenant'', JStr (py ''Toko B''))])))])]"

definition example_remote :: remote where
  "example_remote = \<lparr>
     list_dirs = [py ''Toko_B_22222222'', py ''_global'', py ''Toko_A_11111111'', py ''Kios_33333333''],
     list_files = (\<lambda>d. Some [\<lparr>file_size = 10, file_name = py ''backup_2024-01-01_0000.zip''\<rparr>,
                            \<lparr>file_size = 12, file_name = py ''backup_2024-01-02_0000.zip''\<rparr>]),
     copy_archive = (\<lambda>d z. Copied 0 (Some (Zip (if d = py ''Toko_A_11111111'' then example_archive
                                                else example_archive_b))))\<rparr>"



definition no_files :: local_dir where
  "no_files = Map.empty"


section \<open>Properties of the folder key\<close>

lemma py_simps:
  "py '' '' = [32]" "py ''_'' = [95]" "py ''._- '' = [46, 95, 45, 32]"
  by (simp_all add: py_def)

lemma replace_single: "replace [a] [b] s = map (\<lambda>c. if c = a then b else c) s"
  by (induction s) auto

lemma sanitize_concat:
  "concat (map (\<lambda>c. if isalnum U c \<or> c \<in> set (py ''._- '') then [c] else py ''_'') s)
     = map (\<lambda>c. if kept U c then c else 95) s"
  by (induction s) (auto simp: py_simps kept_def)

lemma folder_key_stripped: "folder_key U oname oid = spec_folder_key_stripped U oname oid"
  unfolding folder_key_def safe_name_def spec_folder_key_stripped_def sanitize_concat
  by (simp add: replace_single py_simps)

lemma sanitize_same:
  "same_up_to_disallowed U a b \<Longrightarrow>
     map (\<lambda>c. if kept U c then c else 95) a = map (\<lambda>c. if kept U c then c else 95) b"
  unfolding same_up_to_disallowed_def
  by (induction a b rule: list_all2_induct) auto

lemma folder_key_same:
  "same_up_to_disallowed U a b \<Longrightarrow> folder_key U a oid = folder_key U b oid"
  by (simp add: folder_key_stripped spec_folder_key_stripped_def sanitize_same)

lemma folder_key_toko:
  "folder_key U (py ''Toko #1'') oid = py ''Toko__1_'' @ take 8 oid"
  "folder_key U (py ''Toko @1'') oid = py ''Toko__1_'' @ take 8 oid"
  by (simp_all add: folder_key_stripped spec_folder_key_stripped_def py_def kept_def isalnum_def
      ascii_alnum_def strip_def isspace_def)

text \<open>
  C2 (as the code has it).  The folder key is a function of the display name and the
  identity.  It is computed by keeping alphanumerics, dot, underscore, hyphen and space and
  replacing every other character with an underscore, then removing leading and trailing
  whitespace, then replacing the remaining spaces with underscores, and appending an
  underscore and the first eight characters of the identity.  Names that differ only in
  disallowed characters get the same key; "Toko #1" and "Toko @1" both get
  \<open>Toko__1_{id8}\<close>, with one underscore for the space and one for the disallowed character.
\<close>

theorem folder_key_derivation:
  "folder_key U oname oid = spec_folder_key_stripped U oname oid
   \<and> (same_up_to_disallowed U a b \<longrightarrow> folder_key U a oid = folder_key U b oid)
   \<and> folder_key U (py ''Toko #1'') oid = py ''Toko__1_'' @ take 8 oid
   \<and> folder_key U (py ''Toko @1'') oid = py ''Toko__1_'' @ take 8 oid"
  using folder_key_stripped folder_key_same folder_key_toko by blast

theorem folder_key_derivation_witness:
  "same_up_to_disallowed (\<lambda>c. False) (py ''A#b'') (py ''A@b'')
   \<and> folder_key (\<lambda>c. False) (py ''A#b'') (py ''abcdefghijkl'')
       = folder_key (\<lambda>c. False) (py ''A@b'') (py ''abcdefghijkl'')
   \<and> folder_key (\<lambda>c. False) (py ''Toko #1'') (py ''abcdefghijkl'') = py ''Toko__1_abcdefgh''"
proof -
  have h: "same_up_to_disallowed (\<lambda>c. False) (py ''A#b'') (py ''A@b'')"
    by (simp add: same_up_to_disallowed_def py_def kept_def isalnum_def ascii_alnum_def)
  have t: "py ''Toko__1_'' @ take 8 (py ''abcdefghijkl'') = py ''Toko__1_abcdefgh''"
    by (simp add: py_def)
  note fk = folder_key_derivation [of "\<lambda>c. False" "py ''A#b''" "py ''abcdefghijkl''" "py ''A#b''" "py ''A@b''"]
  from fk h have e: "folder_key (\<lambda>c. False) (py ''A#b'') (py ''abcdefghijkl'')
       = folder_key (\<lambda>c. False) (py ''A@b'') (py ''abcdefghijkl'')"
    by blast
  from fk t have k: "folder_key (\<lambda>c. False) (py ''Toko #1'') (py ''abcdefghijkl'') = py ''Toko__1_abcdefgh''"
    by metis
  from h e k show ?thesis by blast
qed

text \<open>
  C2 as the specification states it fails twice: the key of "Toko #1" has two underscores
  before the digit, not one, and a name with a leading space loses it before the spaces are
  replaced, so the derivation without the \<open>strip\<close> step gives another key.
\<close>

theorem folder_key_claim_counterexample:
  "folder_key (\<lambda>c. False) (py ''Toko #1'') (py ''abcdefghijkl'') \<noteq> py ''Toko_1_abcdefgh''
   \<and> folder_key (\<lambda>c. False) (py '' Toko'') (py ''abcdefghijkl'')
       \<noteq> spec_folder_key (\<lambda>c. False) (py '' Toko'') (py ''abcdefghijkl'')"
  by (simp add: folder_key_stripped spec_folder_key_stripped_def spec_folder_key_def py_def
      kept_def isalnum_def ascii_alnum_def strip_def isspace_def)

section \<open>Properties of the upload retry\<close>

lemma upload_loop_failing:
  "\<forall>a \<in> set as. run a \<noteq> Exit 0 \<and> a < m \<and> 0 \<le> delay * a \<and> delay * a \<le> sleep_max \<Longrightarrow>
   upload_loop sleep_max run delay m (as @ bs) tr
     = upload_loop sleep_max run delay m bs
         (tr\<lparr>attempts := attempts tr @ as, sleeps := sleeps tr @ map (\<lambda>a. delay * a) as\<rparr>)"
proof (induction as arbitrary: tr)
  case Nil
  then show ?case by simp
next
  case (Cons a as)
  from Cons.prems have "\<not> delay * a < 0" "\<not> sleep_max < delay * a"
    by (simp_all add: not_less)
  with Cons show ?case by (simp add: Let_def)
qed

lemma upload_loop_false:
  "upload_loop sleep_max run delay m as tr = (Inr False, tr') \<Longrightarrow>
   attempts tr' = attempts tr @ as \<and> (\<forall>a \<in> set as. run a \<noteq> Exit 0)"
proof (induction as arbitrary: tr)
  case Nil
  then show ?case by simp
next
  case (Cons a as)
  then show ?case by (fastforce simp: Let_def split: if_splits)
qed

lemma sum_list_upto: "sum_list (map f [1..int k]) = (\<Sum>i = 1..int k. f i)"
  by (simp add: interv_sum_list_conv_sum_set_int)

lemma upload_retry_then_success:
  assumes d: "0 \<le> delay" and lim: "delay * int k \<le> sleep_max" and k: "int k < max_retries"
    and f: "\<forall>a. 1 \<le> a \<and> a \<le> int k \<longrightarrow> run a \<noteq> Exit 0"
    and s: "run (int k + 1) = Exit 0"
  shows "upload_gdrive sleep_max run delay max_retries
     = (Inr True, \<lparr>attempts = [1..int k + 1], sleeps = map (\<lambda>a. delay * a) [1..int k]\<rparr>)"
proof -
  have split: "[1..max_retries] = [1..int k] @ (int k + 1) # [int k + 2..max_retries]"
    using k upto_split3 [of 1 "int k + 1" max_retries] by (simp add: add.commute)
  have pre: "\<forall>a \<in> set [1..int k]. run a \<noteq> Exit 0 \<and> a < max_retries
      \<and> 0 \<le> delay * a \<and> delay * a \<le> sleep_max"
  proof
    fix a assume "a \<in> set [1..int k]"
    then have a: "1 \<le> a" "a \<le> int k" by simp_all
    from a d have "delay * a \<le> delay * int k" by (simp add: mult_left_mono)
    with lim have "delay * a \<le> sleep_max" by simp
    moreover from a d have "0 \<le> delay * a" by simp
    ultimately show "run a \<noteq> Exit 0 \<and> a < max_retries \<and> 0 \<le> delay * a \<and> delay * a \<le> sleep_max"
      using a f k by simp
  qed
  have att: "[1..int k + 1] = [1..int k] @ [int k + 1]"
    using upto_rec2 [of 1 "int k + 1"] by simp
  show ?thesis
    unfolding upload_gdrive_def split upload_loop_failing [OF pre]
    by (simp add: s no_trace_def att)
qed

lemma upload_false_all_failed:
  assumes "fst (upload_gdrive sleep_max run delay max_retries) = Inr False"
  shows "attempts (snd (upload_gdrive sleep_max run delay max_retries)) = [1..max_retries]
         \<and> (\<forall>a. 1 \<le> a \<and> a \<le> max_retries \<longrightarrow> run a \<noteq> Exit 0)"
proof -
  obtain tr where "upload_gdrive sleep_max run delay max_retries = (Inr False, tr)"
    using assms by (cases "upload_gdrive sleep_max run delay max_retries") simp
  then show ?thesis
    using upload_loop_false [of sleep_max run delay max_retries "[1..max_retries]" no_trace tr]
    by (simp add: upload_gdrive_def no_trace_def)
qed

text \<open>
  C4 (as the code has it).  With a back-off delay that is not negative and back-off
  intervals that \<open>time.sleep\<close> accepts (\<open>delay * k\<close> within the range of the runtime's clock):
  when the sync operation fails the first \<open>k < max_retries\<close> attempts and succeeds at the
  next one, \<open>upload_gdrive\<close> returns \<open>True\<close>, it has slept \<open>delay * 1, ..., delay * k\<close> in this
  order, and the total is the sum of these \<open>k\<close> intervals.  It returns \<open>False\<close> only after the
  attempts \<open>1, ..., max_retries\<close> were all made and all failed.
\<close>

theorem upload_retry_backoff:
  "(0 \<le> delay \<and> delay * int k \<le> sleep_max \<and> int k < max_retries
      \<and> (\<forall>a. 1 \<le> a \<and> a \<le> int k \<longrightarrow> run a \<noteq> Exit 0) \<and> run (int k + 1) = Exit 0
    \<longrightarrow> fst (upload_gdrive sleep_max run delay max_retries) = Inr True
        \<and> attempts (snd (upload_gdrive sleep_max run delay max_retries)) = [1..int k + 1]
        \<and> sleeps (snd (upload_gdrive sleep_max run delay max_retries)) = map (\<lambda>a. delay * a) [1..int k]
        \<and> sum_list (sleeps (snd (upload_gdrive sleep_max run delay max_retries)))
            = (\<Sum>i = 1..int k. delay * i))
   \<and> (fst (upload_gdrive sleep_max run delay max_retries) = Inr False
    \<longrightarrow> attempts (snd (upload_gdrive sleep_max run delay max_retries)) = [1..max_retries]
        \<and> (\<forall>a. 1 \<le> a \<and> a \<le> max_retries \<longrightarrow> run a \<noteq> Exit 0))"
  using upload_retry_then_success [of delay k sleep_max max_retries run]
    upload_false_all_failed [of sleep_max run delay max_retries]
  by (simp add: sum_list_upto)

theorem upload_retry_backoff_witness:
  "fst (upload_gdrive 9223372036 (\<lambda>a. if a \<le> 2 then Exit 1 else Exit 0) 10 3) = Inr True
   \<and> sleeps (snd (upload_gdrive 9223372036 (\<lambda>a. if a \<le> 2 then Exit 1 else Exit 0) 10 3)) = [10, 20]
   \<and> sum_list (sleeps (snd (upload_gdrive 9223372036 (\<lambda>a. if a \<le> 2 then Exit 1 else Exit 0) 10 3))) = 30
   \<and> fst (upload_gdrive 9223372036 (\<lambda>a. Timeout) 10 3) = Inr False
   \<and> attempts (snd (upload_gdrive 9223372036 (\<lambda>a. Timeout) 10 3)) = [1, 2, 3]"
proof -
  let ?run = "\<lambda>a::int. if a \<le> 2 then Exit 1 else Exit 0"
  have hyp: "(0::int) \<le> 10 \<and> (10::int) * int 2 \<le> 9223372036 \<and> int 2 < 3
      \<and> (\<forall>a. 1 \<le> a \<and> a \<le> int 2 \<longrightarrow> ?run a \<noteq> Exit 0) \<and> ?run (int 2 + 1) = Exit 0"
    by simp
  have l: "map (\<lambda>a. 10 * a) [1..int 2] = [10, 20::int]"
    by (simp add: upto_rec1)
  have "(\<Sum>i = 1..int 2. 10 * i) = sum_list (map (\<lambda>i. 10 * i) [1..int 2])"
    by (rule sum_list_upto [symmetric])
  also have "\<dots> = (30::int)"
    by (simp add: upto_rec1)
  finally have s: "(\<Sum>i = 1..int 2. 10 * i) = (30::int)" .
  have f: "fst (upload_gdrive 9223372036 (\<lambda>a. Timeout) 10 3) = Inr False"
    by (simp add: upload_gdrive_def no_trace_def upto_rec1 Let_def)
  have u: "[1..3] = [1, 2, 3::int]"
    by (simp add: upto_rec1)
  from upload_retry_backoff [of 10 2 9223372036 3 ?run] hyp l s
  have a: "fst (upload_gdrive 9223372036 ?run 10 3) = Inr True
      \<and> sleeps (snd (upload_gdrive 9223372036 ?run 10 3)) = [10, 20]
      \<and> sum_list (sleeps (snd (upload_gdrive 9223372036 ?run 10 3))) = 30"
    by simp
  from upload_retry_backoff [of 10 0 9223372036 3 "\<lambda>a. Timeout"] f u
  have b: "attempts (snd (upload_gdrive 9223372036 (\<lambda>a. Timeout) 10 3)) = [1, 2, 3]"
    by simp
  from a b f show ?thesis by simp
qed

text \<open>
  C4 as the specification states it fails: with a negative delay in the configuration, an
  operation that fails once and then succeeds makes \<open>time.sleep\<close> raise, and the upload
  neither returns success nor sleeps; with a delay beyond the range of the clock (here the
  bound of 9223372036 seconds) it raises as well.
\<close>

theorem upload_retry_claim_counterexample:
  "upload_gdrive 9223372036 (\<lambda>a. if a \<le> 1 then Exit 1 else Exit 0) (- 10) 3
     = (Inl ValueError, \<lparr>attempts = [1], sleeps = []\<rparr>)
   \<and> upload_gdrive 9223372036 (\<lambda>a. if a \<le> 1 then Exit 1 else Exit 0) 10000000000 3
     = (Inl OverflowError, \<lparr>attempts = [1], sleeps = []\<rparr>)"
  by (simp add: upload_gdrive_def no_trace_def upto_rec1 Let_def)

section \<open>Properties of the pagination\<close>


lemma loop_full_pages:
  "\<forall>q. p \<le> q \<and> q < p + n \<longrightarrow> (\<exists>xs. page_of (srv q) = Items xs \<and> batch \<le> length xs) \<Longrightarrow>
   pb_get_all_loop srv batch p recs reqs
     = pb_get_all_loop srv batch (p + n)
         (recs @ concat (map (\<lambda>q. items_of (srv q)) [p..<p + n])) (reqs @ [p..<p + n])"
proof (induction n arbitrary: p recs reqs)
  case 0
  then show ?case by simp
next
  case (Suc n)
  from Suc.prems obtain xs where xs: "page_of (srv p) = Items xs" "batch \<le> length xs"
    using Suc.prems [rule_format, of p] by auto
  have rest: "\<forall>q. Suc p \<le> q \<and> q < Suc p + n \<longrightarrow> (\<exists>xs. page_of (srv q) = Items xs \<and> batch \<le> length xs)"
    using Suc.prems by simp
  have step: "pb_get_all_loop srv batch p recs reqs
      = pb_get_all_loop srv batch (Suc p) (recs @ xs) (reqs @ [p])"
    using xs by (subst pb_get_all_loop.simps) simp
  have upt: "[p..<p + Suc n] = p # [Suc p..<Suc p + n]"
    by (simp add: upt_rec)
  show ?case
    unfolding step Suc.IH [OF rest] upt
    by (simp add: items_of_def xs)
qed

lemma pb_get_all_after_full_pages:
  assumes "full_pages srv batch n"
  shows "pb_get_all srv batch
     = pb_get_all_loop srv batch (n + 1)
         (concat (map (\<lambda>q. items_of (srv q)) [1..<n + 1])) [1..<n + 1]"
proof -
  have "\<forall>q. 1 \<le> q \<and> q < 1 + n \<longrightarrow> (\<exists>xs. page_of (srv q) = Items xs \<and> batch \<le> length xs)"
    using assms by (auto simp: full_pages_def)
  from loop_full_pages [OF this, of "[]" "[]"] show ?thesis
    by (simp add: pb_get_all_def add.commute)
qed

lemma page_of_serve: "page_of (serve xs batch p) = Items (take batch (drop ((p - 1) * batch) xs))"
  by (simp add: serve_def)

lemma concat_slices:
  "concat (map (\<lambda>q. take b (drop ((q - 1) * b) xs)) [1..<n + 1]) = take (n * b) xs"
proof (induction n)
  case 0
  then show ?case by simp
next
  case (Suc n)
  have "take (n * b) xs @ take b (drop (n * b) xs) = take (n * b + b) xs"
    by (simp add: take_add)
  with Suc show ?case by (simp add: add.commute)
qed

lemma serve_full_pages: "full_pages (serve xs batch) batch (length xs div batch)"
proof -
  have "batch \<le> length xs - (q - 1) * batch" if "1 \<le> q" "q \<le> length xs div batch" for q
  proof -
    from that(2) have "q * batch \<le> length xs div batch * batch"
      by (rule mult_le_mono1)
    then have "q * batch \<le> length xs"
      using div_times_less_eq_dividend [of "length xs" batch] by linarith
    moreover have "q * batch = (q - 1) * batch + batch"
      using that(1) by (cases q) simp_all
    ultimately show ?thesis by linarith
  qed
  then show ?thesis
    by (auto simp: full_pages_def page_of_serve)
qed

lemma pb_get_all_serve:
  assumes "0 < batch"
  shows "pb_get_all (serve xs batch) batch = Some (xs, [1..<length xs div batch + 2])"
proof -
  let ?n = "length xs div batch"
  have short: "length (drop (?n * batch) xs) < batch"
    using assms by (simp add: minus_div_mult_eq_mod)
  have all: "take (?n * batch) xs @ take batch (drop (?n * batch) xs) = xs"
    using short by simp
  have items: "(\<lambda>q. items_of (serve xs batch q)) = (\<lambda>q. take batch (drop ((q - 1) * batch) xs))"
    by (simp add: items_of_def page_of_serve)
  have last: "[1..<?n + 2] = [1..<?n + 1] @ [?n + 1]"
    by simp
  show ?thesis
    unfolding pb_get_all_after_full_pages [OF serve_full_pages] items concat_slices
    apply (subst pb_get_all_loop.simps)
    using short all by (simp add: page_of_serve)
qed


text \<open>
  C5.  Against a collection of \<open>N * batch\<close> records served in pages of \<open>batch > 0\<close>,
  \<open>pb_get_all\<close> returns, it returns all the records, and it requests the pages
  \<open>1, ..., N + 1\<close>, that is \<open>N + 1\<close> pages; against \<open>batch - 1\<close> records it requests page 1
  only.  In general it requests \<open>length xs div batch + 1\<close> pages.
\<close>

theorem pagination_fetch_count:
  "0 < batch \<longrightarrow>
     pb_get_all (serve xs batch) batch = Some (xs, [1..<length xs div batch + 2])
     \<and> (length xs = N * batch \<longrightarrow>
          pb_get_all (serve xs batch) batch = Some (xs, [1..<N + 2]) \<and> length [1..<N + 2] = N + 1)
     \<and> (length ys = batch - 1 \<longrightarrow> pb_get_all (serve ys batch) batch = Some (ys, [1]))"
proof (intro impI conjI)
  assume b: "0 < batch"
  show "pb_get_all (serve xs batch) batch = Some (xs, [1..<length xs div batch + 2])"
    using b by (rule pb_get_all_serve)
  show "pb_get_all (serve xs batch) batch = Some (xs, [1..<N + 2])" if "length xs = N * batch"
    using pb_get_all_serve [OF b, of xs] that b by simp
  show "length [1..<N + 2] = N + 1"
    by simp
  show "pb_get_all (serve ys batch) batch = Some (ys, [1])" if "length ys = batch - 1"
    using pb_get_all_serve [OF b, of ys] that b by simp
qed

theorem pagination_fetch_count_witness:
  "pb_get_all (serve [JNum 1, JNum 2, JNum 3, JNum 4] 2) 2 = Some ([JNum 1, JNum 2, JNum 3, JNum 4], [1, 2, 3])
   \<and> pb_get_all (serve [JNum 7] 2) 2 = Some ([JNum 7], [1])"
proof -
  have u: "[1..<2 + 2] = [1, 2, 3::nat]"
    by (simp add: upt_rec)
  from pagination_fetch_count [of 2 "[JNum 1, JNum 2, JNum 3, JNum 4]" 2 "[JNum 7]"] u
  show ?thesis by simp
qed

text \<open>
  C6.  A 404 reply gives the empty list, whatever was accumulated; a transport exception or
  any other 4xx or 5xx status is a failed page.  When the pages \<open>1, ..., n\<close> were full and
  page \<open>n + 1\<close> is not found, \<open>pb_get_all\<close> returns the empty list; when page \<open>n + 1\<close> fails,
  it returns exactly the items of the pages \<open>1, ..., n\<close>.  In both cases it returns (the
  result is a value, never an exception) after \<open>n + 1\<close> requests.
\<close>

theorem pagination_error_policy:
  "page_of (Reply 404 body) = Not_found
   \<and> page_of Transport_error = Failed
   \<and> (400 \<le> st \<and> st < 600 \<and> st \<noteq> 404 \<longrightarrow> page_of (Reply st body) = Failed)
   \<and> (full_pages srv batch n \<and> page_of (srv (n + 1)) = Not_found
        \<longrightarrow> pb_get_all srv batch = Some ([], [1..<n + 2]))
   \<and> (full_pages srv batch n \<and> page_of (srv (n + 1)) = Failed
        \<longrightarrow> pb_get_all srv batch
              = Some (concat (map (\<lambda>q. items_of (srv q)) [1..<n + 1]), [1..<n + 2]))"
proof (intro conjI impI)
  show "pb_get_all srv batch = Some ([], [1..<n + 2])"
    if h: "full_pages srv batch n \<and> page_of (srv (n + 1)) = Not_found"
  proof -
    from h have fp: "full_pages srv batch n" and nf: "page_of (srv (n + 1)) = Not_found"
      by simp_all
    show ?thesis
      unfolding pb_get_all_after_full_pages [OF fp]
      by (subst pb_get_all_loop.simps) (use nf in simp)
  qed
  show "pb_get_all srv batch = Some (concat (map (\<lambda>q. items_of (srv q)) [1..<n + 1]), [1..<n + 2])"
    if h: "full_pages srv batch n \<and> page_of (srv (n + 1)) = Failed"
  proof -
    from h have fp: "full_pages srv batch n" and nf: "page_of (srv (n + 1)) = Failed"
      by simp_all
    show ?thesis
      unfolding pb_get_all_after_full_pages [OF fp]
      by (subst pb_get_all_loop.simps) (use nf in simp)
  qed
qed simp_all

theorem pagination_error_policy_witness:
  "pb_get_all (\<lambda>p. if p = 1 then Reply 200 (Some (JObj [(py ''items'', JArr [JNum 1, JNum 2])]))
                   else Reply 404 None) 2 = Some ([], [1, 2])
   \<and> pb_get_all (\<lambda>p. if p = 1 then Reply 200 (Some (JObj [(py ''items'', JArr [JNum 1, JNum 2])]))
                   else Reply 500 None) 2 = Some ([JNum 1, JNum 2], [1, 2])
   \<and> pb_get_all (\<lambda>p. if p = 1 then Reply 200 (Some (JObj [(py ''items'', JArr [JNum 1, JNum 2])]))
                   else Transport_error) 2 = Some ([JNum 1, JNum 2], [1, 2])"
proof -
  let ?full = "Reply 200 (Some (JObj [(py ''items'', JArr [JNum 1, JNum 2])]))"
  have f: "full_pages (\<lambda>p. if p = 1 then ?full else r) 2 1" for r
    by (simp add: full_pages_def)
  have u: "[1..<1 + 2] = [1, 2::nat]" "[1..<1 + 1] = [1::nat]"
    by (simp_all add: upt_rec)
  have i: "items_of ?full = [JNum 1, JNum 2]"
    by (simp add: items_of_def)
  from pagination_error_policy [of None 404 "\<lambda>p. if p = 1 then ?full else Reply 404 None" 2 1] f u
  have a: "pb_get_all (\<lambda>p. if p = 1 then ?full else Reply 404 None) 2 = Some ([], [1, 2])"
    by simp
  from pagination_error_policy [of None 500 "\<lambda>p. if p = 1 then ?full else Reply 500 None" 2 1] f u i
  have b: "pb_get_all (\<lambda>p. if p = 1 then ?full else Reply 500 None) 2 = Some ([JNum 1, JNum 2], [1, 2])"
    by simp
  from pagination_error_policy [of None 500 "\<lambda>p. if p = 1 then ?full else Transport_error" 2 1] f u i
  have c: "pb_get_all (\<lambda>p. if p = 1 then ?full else Transport_error) 2 = Some ([JNum 1, JNum 2], [1, 2])"
    by simp
  from a b c show ?thesis by simp
qed

section \<open>Properties of the orchestrator\<close>


lemma tenant_step_errs:
  "errs (tenant_step U cfg env d ow st) = errs st @ tenant_errors U cfg env d ow"
  by (simp add: tenant_step_def tenant_errors_def Let_def split: sum.splits prod.splits)

lemma tenant_step_results:
  "results (tenant_step U cfg env d ow st) = results st @ [tenant_result U cfg env d ow]"
  by (simp add: tenant_step_def tenant_result_def Let_def split: sum.splits prod.splits)

lemma tenant_loop_errs:
  "errs (tenant_loop U cfg env d ows st) = errs st @ concat (map (tenant_errors U cfg env d) ows)"
  by (induction ows arbitrary: st) (simp_all add: tenant_step_errs)

lemma tenant_loop_results:
  "results (tenant_loop U cfg env d ows st) = results st @ map (tenant_result U cfg env d) ows"
  by (induction ows arbitrary: st) (simp_all add: tenant_step_results)









lemma upload_listing: "upload cfg (env\<lparr>remote_listing := l\<rparr>) = upload cfg env"
  by (intro ext) (simp add: upload_def)

lemma tenant_errors_listing:
  "tenant_errors U cfg (env\<lparr>remote_listing := l\<rparr>) d = tenant_errors U cfg env d"
  by (rule ext)
    (simp add: tenant_errors_def tenant_step_def backup_tenant_def upload_listing Let_def
      split: sum.splits prod.splits)

lemma tenant_result_listing:
  "tenant_result U cfg (env\<lparr>remote_listing := l\<rparr>) d = tenant_result U cfg env d"
  by (rule ext)
    (simp add: tenant_result_def tenant_step_def backup_tenant_def upload_listing Let_def
      split: sum.splits prod.splits)

lemma stages_listing:
  "stage_fulldb cfg (env\<lparr>remote_listing := l\<rparr>) = stage_fulldb cfg env"
  "stage_global cfg (env\<lparr>remote_listing := l\<rparr>) = stage_global cfg env"
  unfolding stage_fulldb_def stage_global_def upload_listing by simp_all

lemma tenant_loop_listing:
  "errs (tenant_loop U cfg (env\<lparr>remote_listing := l\<rparr>) d ows st) = errs (tenant_loop U cfg env d ows st)"
  "results (tenant_loop U cfg (env\<lparr>remote_listing := l\<rparr>) d ows st) = results (tenant_loop U cfg env d ows st)"
  by (simp_all add: tenant_loop_errs tenant_loop_results tenant_errors_listing tenant_result_listing)

lemma run_stages_listing:
  "run_errors (run_stages U cfg (env\<lparr>remote_listing := l\<rparr>) d) = run_errors (run_stages U cfg env d)"
  "run_results (run_stages U cfg (env\<lparr>remote_listing := l\<rparr>) d) = run_results (run_stages U cfg env d)"
  "exit_code (run_stages U cfg (env\<lparr>remote_listing := l\<rparr>) d) = exit_code (run_stages U cfg env d)"
  unfolding run_stages_def stages_listing Let_def
  by (simp_all add: tenant_loop_listing ended_def split: sum.split option.split)

lemma main_listing:
  "run_errors (main U cf (env\<lparr>remote_listing := l\<rparr>) d) = run_errors (main U cf env d)"
  "run_results (main U cf (env\<lparr>remote_listing := l\<rparr>) d) = run_results (main U cf env d)"
  "exit_code (main U cf (env\<lparr>remote_listing := l\<rparr>) d) = exit_code (main U cf env d)"
  by (simp_all add: main_def run_stages_listing split: ending.split)

lemma tenant_step_unverified:
  assumes "backup_tenant U cfg env ow d = Inr (fkey, zip_path, zip_name, summ)"
    and "upload cfg env zip_path (gdrive_root cfg @ py ''/'' @ fkey) = Inr True"
    and "\<not> verify_upload (remote_listing env (gdrive_root cfg @ py ''/'' @ fkey)) zip_name"
  shows "tenant_step U cfg env d ow st
     = st\<lparr>results := results st @ [Summary_result summ OK],
          logged := logged st @ [Warn_verify_failed (oname_of ow)]\<rparr>"
  using assms by (simp add: tenant_step_def Let_def)


lemma example_upload: "upload example_cfg example_env p dest = Inr True"
  by (simp add: upload_def upload_gdrive_def example_cfg_def example_env_def no_trace_def
      upto_rec1 Let_def)







text \<open>
  C10.  For a tenant whose upload returned \<open>True\<close> and whose verification returned \<open>False\<close>,
  the loop appends the result with upload \<open>OK\<close> and appends nothing to the error list (it
  logs a warning).  The error list, the results and the exit code of the whole run are the
  same whatever the listings of the remote folders are.
\<close>

theorem verification_has_no_effect:
  "(backup_tenant U cfg env ow d = Inr (fkey, zip_path, zip_name, summ)
      \<and> upload cfg env zip_path (gdrive_root cfg @ py ''/'' @ fkey) = Inr True
      \<and> \<not> verify_upload (remote_listing env (gdrive_root cfg @ py ''/'' @ fkey)) zip_name
    \<longrightarrow> results (tenant_step U cfg env d ow st) = results st @ [Summary_result summ OK]
        \<and> errs (tenant_step U cfg env d ow st) = errs st
        \<and> logged (tenant_step U cfg env d ow st) = logged st @ [Warn_verify_failed (oname_of ow)])
   \<and> run_errors (main U cf (env\<lparr>remote_listing := l\<rparr>) d) = run_errors (main U cf env d)
   \<and> run_results (main U cf (env\<lparr>remote_listing := l\<rparr>) d) = run_results (main U cf env d)
   \<and> exit_code (main U cf (env\<lparr>remote_listing := l\<rparr>) d) = exit_code (main U cf env d)"
  using tenant_step_unverified [of U cfg env ow d fkey zip_path zip_name summ st]
  by (simp add: main_listing)

theorem verification_has_no_effect_witness:
  "map upload_of (results (tenant_step (\<lambda>c. False) example_cfg example_env (py ''d'') good_owner
       \<lparr>errs = [], results = [], logged = []\<rparr>)) = [OK]
   \<and> errs (tenant_step (\<lambda>c. False) example_cfg example_env (py ''d'') good_owner
       \<lparr>errs = [], results = [], logged = []\<rparr>) = []
   \<and> logged (tenant_step (\<lambda>c. False) example_cfg example_env (py ''d'') good_owner
       \<lparr>errs = [], results = [], logged = []\<rparr>) = [Warn_verify_failed (py ''Toko #1'')]"
proof -
  obtain fkey zip_path zip_name summ where
    b: "backup_tenant (\<lambda>c. False) example_cfg example_env good_owner (py ''d'')
          = Inr (fkey, zip_path, zip_name, summ)"
    by (simp add: backup_tenant_def Let_def example_env_def good_owner_def py_def)
  have u: "upload example_cfg example_env zip_path (gdrive_root example_cfg @ py ''/'' @ fkey) = Inr True"
    by (rule example_upload)
  have v: "\<not> verify_upload (remote_listing example_env (gdrive_root example_cfg @ py ''/'' @ fkey)) zip_name"
    by (simp add: example_env_def)
  have nm: "oname_of good_owner = py ''Toko #1''"
    by (simp add: oname_of_def good_owner_def py_def)
  from verification_has_no_effect [of "\<lambda>c. False" example_cfg example_env good_owner "py ''d''"
      fkey zip_path zip_name summ "\<lparr>errs = [], results = [], logged = []\<rparr>"] b u v nm
  show ?thesis by simp
qed

section \<open>Properties of the restore: dry run\<close>

declare find_summary.simps [simp del]

lemma restore_record_dry:
  "restore_record srv col True r c w =
     (if is_dict r
      then Inr (if has_identity r then c\<lparr>created := created c + 1\<rparr> else c\<lparr>skipped := skipped c + 1\<rparr>)
      else Inl AttributeError, w)"
  by (cases r) (simp_all add: Let_def)

lemma restore_loop_dry:
  "restore_loop srv col True rs c w =
     (if list_all is_dict rs
      then Inr (c\<lparr>created := created c + length (filter has_identity rs),
                  skipped := skipped c + length (filter (\<lambda>r. \<not> has_identity r) rs)\<rparr>)
      else Inl AttributeError, w)"
  by (induction rs arbitrary: c) (simp_all add: restore_record_dry)

lemma restore_collection_data_dry:
  "restore_collection_data srv col rs True w =
     (if list_all is_dict rs
      then Inr \<lparr>created = length (filter has_identity rs), updated = 0,
                 skipped = length (filter (\<lambda>r. \<not> has_identity r) rs), errors = 0\<rparr>
      else Inl AttributeError, w)"
  by (simp add: restore_collection_data_def restore_loop_dry no_counts_def)

lemma restore_entry_dry:
  "snd (restore_entry srv True e tot w) = w"
  "fst (restore_entry srv True e tot w) = Inr tot' \<Longrightarrow> errors tot' = errors tot"
proof -
  obtain fname nd where e: "e = (fname, nd)" by (cases e)
  show "snd (restore_entry srv True e tot w) = w"
    unfolding e
    by (auto simp: Let_def restore_collection_data_dry
        split: node.splits option.splits jval.splits sum.splits prod.splits)
  show "errors tot' = errors tot" if "fst (restore_entry srv True e tot w) = Inr tot'"
    using that unfolding e
    by (auto simp: Let_def add_counts_def restore_collection_data_dry
        split: node.splits option.splits jval.splits sum.splits prod.splits if_splits)
qed

lemma restore_entry_dry_pair:
  "\<exists>r. restore_entry srv True e tot w = (r, w)"
  using restore_entry_dry(1) [of srv e tot w] by (metis prod.collapse)

lemma restore_entries_dry_world: "snd (restore_entries srv True es tot w) = w"
proof (induction es arbitrary: tot)
  case Nil
  then show ?case by simp
next
  case (Cons e es)
  obtain r where r: "restore_entry srv True e tot w = (r, w)"
    using restore_entry_dry_pair by blast
  show ?case using Cons.IH by (cases r) (simp_all add: r)
qed

lemma restore_entries_dry_errors:
  "fst (restore_entries srv True es tot w) = Inr tot' \<Longrightarrow> errors tot' = errors tot"
proof (induction es arbitrary: tot)
  case Nil
  then show ?case by simp
next
  case (Cons e es)
  obtain r where r: "restore_entry srv True e tot w = (r, w)"
    using restore_entry_dry_pair by blast
  show ?case
  proof (cases r)
    case (Inl a)
    with Cons.prems r show ?thesis by simp
  next
    case (Inr t)
    with r have "errors t = errors tot"
      using restore_entry_dry(2) [of srv e tot w t] by simp
    moreover from Cons.prems r Inr have "fst (restore_entries srv True es t w) = Inr tot'"
      by simp
    ultimately show ?thesis using Cons.IH by simp
  qed
qed

lemma restore_from_zip_dry:
  "snd (restore_from_zip srv ex True w) = w"
  "fst (restore_from_zip srv ex True w) = Inr tot \<Longrightarrow> errors tot = 0"
proof -
  let ?d = "case find_summary ex of Some d \<Rightarrow> d | None \<Rightarrow> ex"
  obtain r where r: "restore_entries srv True ?d no_counts w = (r, w)"
    using restore_entries_dry_world [of srv ?d no_counts w] by (metis prod.collapse)
  show "snd (restore_from_zip srv ex True w) = w"
    by (simp add: restore_from_zip_def Let_def r split: sum.splits)
  have z: "errors no_counts = 0"
    by (simp add: no_counts_def)
  show "errors tot = 0" if "fst (restore_from_zip srv ex True w) = Inr tot"
  proof -
    from that have "r = Inr tot"
      by (simp add: restore_from_zip_def Let_def r split: sum.splits)
    with r have "fst (restore_entries srv True ?d no_counts w) = Inr tot"
      by simp
    from restore_entries_dry_errors [OF this] z show ?thesis by simp
  qed
qed

lemma restore_from_zip_dry_pair: "\<exists>r. restore_from_zip srv ex True w = (r, w)"
  using restore_from_zip_dry(1) [of srv ex w] by (metis prod.collapse)

lemma restore_dirs_dry: "snd (snd (restore_dirs srv rmt True ds lf acc w)) = w"
proof (induction ds arbitrary: lf acc)
  case Nil
  then show ?case by simp
next
  case (Cons d ds)
  show ?case
  proof (cases "latest_zip rmt d")
    case None
    then show ?thesis using Cons.IH by simp
  next
    case (Some z)
    show ?thesis
    proof (cases "copy_archive rmt d z")
      case Copy_timeout
      with Some show ?thesis by simp
    next
      case (Copied rc written)
      let ?l = "case written of None \<Rightarrow> lf | Some a \<Rightarrow> lf(z \<mapsto> a)"
      show ?thesis
      proof (cases "rc \<noteq> 0")
        case True
        with Some Copied Cons.IH show ?thesis by simp
      next
        case False
        show ?thesis
        proof (cases "?l z")
          case None
          with Some Copied False Cons.IH show ?thesis by simp
        next
          case (Some a)
          show ?thesis
          proof (cases a)
            case Bad_zip
            with \<open>latest_zip rmt d = Some z\<close> Copied False Some show ?thesis by simp
          next
            case (Zip ex)
            obtain r where r: "restore_from_zip srv ex True w = (r, w)"
              using restore_from_zip_dry_pair by blast
            from \<open>latest_zip rmt d = Some z\<close> Copied False Some Zip Cons.IH show ?thesis
              by (cases r) (simp_all add: r)
          qed
        qed
      qed
    qed
  qed
qed

text \<open>
  C3.  In dry-run mode a restore leaves the world as it is: the state of the store is
  untouched and no request is added to the trace (no lookup, no create, no update; nothing
  is ever uploaded by \<open>restore_files\<close>), whatever the archive holds and also when the restore
  ends in an exception; this holds for \<open>restore_from_zip\<close> and for \<open>restore_latest\<close>.  The
  totals, when there are any, have \<open>errors = 0\<close>.  \<open>restore_collection_data\<close> counts each
  record with an identity as created and each one without as skipped.
\<close>

theorem dry_run_restore:
  "snd (restore_from_zip srv extract_dir True w) = w
   \<and> (\<forall>tot. fst (restore_from_zip srv extract_dir True w) = Inr tot \<longrightarrow> errors tot = 0)
   \<and> snd (snd (restore_latest srv rmt tenant_filter True local_files w)) = w
   \<and> restore_collection_data srv col records True w
       = (if list_all is_dict records
          then Inr \<lparr>created = length (filter has_identity records), updated = 0,
                     skipped = length (filter (\<lambda>r. \<not> has_identity r) records), errors = 0\<rparr>
          else Inl AttributeError, w)"
proof (intro conjI allI impI)
  show "snd (restore_from_zip srv extract_dir True w) = w"
    by (rule restore_from_zip_dry(1))
  show "errors tot = 0" if "fst (restore_from_zip srv extract_dir True w) = Inr tot" for tot
    using that by (rule restore_from_zip_dry(2))
  show "snd (snd (restore_latest srv rmt tenant_filter True local_files w)) = w"
    by (simp add: restore_latest_def restore_dirs_dry split: option.splits)
  show "restore_collection_data srv col records True w
       = (if list_all is_dict records
          then Inr \<lparr>created = length (filter has_identity records), updated = 0,
                     skipped = length (filter (\<lambda>r. \<not> has_identity r) records), errors = 0\<rparr>
          else Inl AttributeError, w)"
    by (rule restore_collection_data_dry)
qed

theorem dry_run_restore_witness:
  "fst (restore_from_zip (pb_store no_faults) example_archive True empty_world)
     = Inr \<lparr>created = 1, updated = 0, skipped = 0, errors = 0\<rparr>
   \<and> trace (snd (restore_from_zip (pb_store no_faults) example_archive True empty_world)) = []
   \<and> restore_collection_data (pb_store no_faults) (py ''users'') [example_record, JObj []] True empty_world
       = (Inr \<lparr>created = 1, updated = 0, skipped = 1, errors = 0\<rparr>, empty_world)"
proof -
  note t = dry_run_restore [of "pb_store no_faults" example_archive empty_world example_remote None
      no_files "py ''users''" "[example_record, JObj []]"]
  have e: "fst (restore_from_zip (pb_store no_faults) example_archive True empty_world)
     = Inr \<lparr>created = 1, updated = 0, skipped = 0, errors = 0\<rparr>"
    by code_simp
  from t e have "errors \<lparr>created = 1, updated = 0, skipped = 0, errors = 0\<rparr> = 0"
    by blast
  from t have w: "snd (restore_from_zip (pb_store no_faults) example_archive True empty_world) = empty_world"
    by blast
  have tr: "trace empty_world = []"
    by (simp add: empty_world_def)
  have d: "list_all is_dict [example_record, JObj []]"
    by (simp add: example_record_def)
  have h: "has_identity example_record" "\<not> has_identity (JObj [])"
    by (simp_all add: example_record_def dict_get_def py_def)
  from t d h have c: "restore_collection_data (pb_store no_faults) (py ''users'') [example_record, JObj []] True empty_world
       = (Inr \<lparr>created = 1, updated = 0, skipped = 1, errors = 0\<rparr>, empty_world)"
    by simp
  from e w tr c show ?thesis by simp
qed

section \<open>Properties of the restore: round trip\<close>

lemma id_is_system_field: "py ''id'' \<in> set system_fields"
  by (simp add: system_fields_def)

lemma created_data_id:
  "dict_get (filter (\<lambda>kv. fst kv \<notin> set system_fields) d @ [(py ''id'', i)]) (py ''id'') = i"
proof -
  have "py ''id'' \<notin> fst ` set (filter (\<lambda>kv. fst kv \<notin> set system_fields) d)"
    using id_is_system_field by auto
  then have "map_of (filter (\<lambda>kv. fst kv \<notin> set system_fields) d) (py ''id'') = None"
    by (simp add: map_of_eq_None_iff)
  then show ?thesis
    by (simp add: dict_get_def map_add_def)
qed

lemma has_identity_cases:
  assumes "has_identity r"
  obtains d where "r = JObj d" "truthy (dict_get d (py ''id''))" "identity r = dict_get d (py ''id'')"
  using assms by (cases r) simp_all

lemma restore_record_create:
  assumes nf: "\<forall>rq. faults rq = None" and hi: "has_identity r"
    and fresh: "srv_state w (col, identity r) = None"
  shows "\<exists>w'. restore_record (pb_store faults) col False r c w = (Inr (c\<lparr>created := created c + 1\<rparr>), w')
           \<and> dom (srv_state w') = insert (col, identity r) (dom (srv_state w))"
proof -
  from hi obtain d where r: "r = JObj d" and t: "truthy (dict_get d (py ''id''))"
    and i: "identity r = dict_get d (py ''id'')"
    by (rule has_identity_cases)
  from fresh i have f: "srv_state w (col, dict_get d (py ''id'')) = None" by simp
  show ?thesis
    unfolding r i
    by (simp add: Let_def call_def pb_store_def nf f t created_data_id)
qed

lemma restore_record_update:
  assumes nf: "\<forall>rq. faults rq = None" and hi: "has_identity r"
    and stored: "(col, identity r) \<in> dom (srv_state w)"
  shows "\<exists>w'. restore_record (pb_store faults) col False r c w = (Inr (c\<lparr>updated := updated c + 1\<rparr>), w')
           \<and> dom (srv_state w') = dom (srv_state w)"
proof -
  from hi obtain d where r: "r = JObj d" and t: "truthy (dict_get d (py ''id''))"
    and i: "identity r = dict_get d (py ''id'')"
    by (rule has_identity_cases)
  from stored i obtain old where f: "srv_state w (col, dict_get d (py ''id'')) = Some old" by auto
  then have "insert (col, dict_get d (py ''id'')) (dom (srv_state w)) = dom (srv_state w)"
    by auto
  then show ?thesis
    unfolding r i
    by (simp add: Let_def call_def pb_store_def nf f t)
qed

lemma restore_loop_creates:
  assumes nf: "\<forall>rq. faults rq = None"
  shows "list_all has_identity rs \<Longrightarrow> distinct (map identity rs) \<Longrightarrow>
     \<forall>r \<in> set rs. srv_state w (col, identity r) = None \<Longrightarrow>
     \<exists>w'. restore_loop (pb_store faults) col False rs c w = (Inr (c\<lparr>created := created c + length rs\<rparr>), w')
          \<and> dom (srv_state w') = dom (srv_state w) \<union> (\<lambda>r. (col, identity r)) ` set rs"
proof (induction rs arbitrary: c w)
  case Nil
  then show ?case by simp
next
  case (Cons r rs)
  from Cons.prems have hi: "has_identity r" and fresh: "srv_state w (col, identity r) = None"
    by simp_all
  from restore_record_create [OF nf hi fresh, of c] obtain w1 where
    s: "restore_record (pb_store faults) col False r c w = (Inr (c\<lparr>created := created c + 1\<rparr>), w1)"
    and d: "dom (srv_state w1) = insert (col, identity r) (dom (srv_state w))"
    by blast
  have rest: "\<forall>r' \<in> set rs. srv_state w1 (col, identity r') = None"
  proof
    fix r' assume r': "r' \<in> set rs"
    with Cons.prems have "identity r' \<noteq> identity r" "srv_state w (col, identity r') = None"
      by (auto simp: image_iff)
    then have "(col, identity r') \<notin> dom (srv_state w1)"
      unfolding d by auto
    then show "srv_state w1 (col, identity r') = None" by auto
  qed
  from Cons.prems have "list_all has_identity rs" "distinct (map identity rs)"
    by simp_all
  from Cons.IH [OF this rest, of "c\<lparr>created := created c + 1\<rparr>"] obtain w' where
    l: "restore_loop (pb_store faults) col False rs (c\<lparr>created := created c + 1\<rparr>) w1
          = (Inr (c\<lparr>created := created c + 1 + length rs\<rparr>), w')"
    and d': "dom (srv_state w') = dom (srv_state w1) \<union> (\<lambda>r. (col, identity r)) ` set rs"
    by auto
  show ?case
    using s l d d' by auto
qed

lemma restore_loop_updates:
  assumes nf: "\<forall>rq. faults rq = None"
  shows "list_all has_identity rs \<Longrightarrow>
     \<forall>r \<in> set rs. (col, identity r) \<in> dom (srv_state w) \<Longrightarrow>
     \<exists>w'. restore_loop (pb_store faults) col False rs c w = (Inr (c\<lparr>updated := updated c + length rs\<rparr>), w')
          \<and> dom (srv_state w') = dom (srv_state w)"
proof (induction rs arbitrary: c w)
  case Nil
  then show ?case by simp
next
  case (Cons r rs)
  from Cons.prems have hi: "has_identity r" and st: "(col, identity r) \<in> dom (srv_state w)"
    by simp_all
  from restore_record_update [OF nf hi st, of c] obtain w1 where
    s: "restore_record (pb_store faults) col False r c w = (Inr (c\<lparr>updated := updated c + 1\<rparr>), w1)"
    and d: "dom (srv_state w1) = dom (srv_state w)"
    by blast
  from Cons.prems d have "list_all has_identity rs" "\<forall>r \<in> set rs. (col, identity r) \<in> dom (srv_state w1)"
    by simp_all
  from Cons.IH [OF this, of "c\<lparr>updated := updated c + 1\<rparr>"] obtain w' where
    l: "restore_loop (pb_store faults) col False rs (c\<lparr>updated := updated c + 1\<rparr>) w1
          = (Inr (c\<lparr>updated := updated c + 1 + length rs\<rparr>), w')"
    and d': "dom (srv_state w') = dom (srv_state w1)"
    by auto
  show ?case
    using s l d d' by auto
qed

lemma round_trip_collection:
  assumes nf: "\<forall>rq. faults rq = None" and hi: "list_all has_identity rs"
    and di: "distinct (map identity rs)"
    and fresh: "\<forall>r \<in> set rs. srv_state w (col, identity r) = None"
  shows "fst (restore_collection_data (pb_store faults) col rs False w)
           = Inr \<lparr>created = length rs, updated = 0, skipped = 0, errors = 0\<rparr>"
    and "fst (restore_collection_data (pb_store faults) col rs False
               (snd (restore_collection_data (pb_store faults) col rs False w)))
           = Inr \<lparr>created = 0, updated = length rs, skipped = 0, errors = 0\<rparr>"
proof -
  from restore_loop_creates [OF nf hi di fresh, of no_counts] obtain w1 where
    f: "restore_loop (pb_store faults) col False rs no_counts w = (Inr (no_counts\<lparr>created := created no_counts + length rs\<rparr>), w1)"
    and d: "dom (srv_state w1) = dom (srv_state w) \<union> (\<lambda>r. (col, identity r)) ` set rs"
    by blast
  show "fst (restore_collection_data (pb_store faults) col rs False w)
           = Inr \<lparr>created = length rs, updated = 0, skipped = 0, errors = 0\<rparr>"
    by (simp add: restore_collection_data_def f) (simp add: no_counts_def)
  from d have "\<forall>r \<in> set rs. (col, identity r) \<in> dom (srv_state w1)"
    by auto
  from restore_loop_updates [OF nf hi this, of no_counts] obtain w2 where
    s: "restore_loop (pb_store faults) col False rs no_counts w1 = (Inr (no_counts\<lparr>updated := updated no_counts + length rs\<rparr>), w2)"
    by blast
  show "fst (restore_collection_data (pb_store faults) col rs False
               (snd (restore_collection_data (pb_store faults) col rs False w)))
           = Inr \<lparr>created = 0, updated = length rs, skipped = 0, errors = 0\<rparr>"
    by (simp add: restore_collection_data_def f s) (simp add: no_counts_def)
qed

lemma add_no_counts: "add_counts no_counts c = c"
  by (cases c) (simp add: add_counts_def no_counts_def)

lemma envelope_records:
  "\<exists>d. envelope c oid ts rs = JObj d \<and> map_of d (py ''records'') = Some (JArr rs)"
  by (simp add: envelope_def py_def)

lemma restore_entry_envelope:
  assumes "endswith fname (py ''.json'')" "fname \<noteq> py ''summary.json''" "rs \<noteq> []"
  shows "restore_entry srv dry (fname, File (Some (envelope c oid ts rs))) no_counts w
           = restore_collection_data srv (replace (py ''.json'') [] fname) rs dry w"
proof -
  obtain d where e: "envelope c oid ts rs = JObj d" and m: "map_of d (py ''records'') = Some (JArr rs)"
    using envelope_records by blast
  obtain a b where r: "restore_collection_data srv (replace (py ''.json'') [] fname) rs dry w = (a, b)"
    by (cases "restore_collection_data srv (replace (py ''.json'') [] fname) rs dry w")
  show ?thesis
    using assms by (cases a) (simp_all add: e m Let_def r add_no_counts)
qed

text \<open>
  C1 (as the code has it).  Against a store on which every lookup, create and update
  succeeds, for records that all carry an identity, with pairwise distinct identities none
  of which is stored in the collection: the restore reports as many created as there are
  records, and 0 updated, skipped and errors; a second restore of the same records against
  the store as the first one left it reports 0 created and as many updated as there are
  records.  Restoring the file of an exported envelope is restoring its records into the
  collection named by the file.
\<close>

theorem round_trip_restore:
  "(\<forall>rq. faults rq = None) \<and> list_all has_identity records \<and> distinct (map identity records)
     \<and> (\<forall>r \<in> set records. srv_state w (col, identity r) = None)
   \<longrightarrow> fst (restore_collection_data (pb_store faults) col records False w)
         = Inr \<lparr>created = length records, updated = 0, skipped = 0, errors = 0\<rparr>
       \<and> fst (restore_collection_data (pb_store faults) col records False
                (snd (restore_collection_data (pb_store faults) col records False w)))
         = Inr \<lparr>created = 0, updated = length records, skipped = 0, errors = 0\<rparr>
       \<and> (endswith fname (py ''.json'') \<and> fname \<noteq> py ''summary.json'' \<and> records \<noteq> []
            \<and> col = replace (py ''.json'') [] fname
          \<longrightarrow> restore_entry (pb_store faults) False
                (fname, File (Some (envelope c oid exported_at records))) no_counts w
              = restore_collection_data (pb_store faults) col records False w)"
  using round_trip_collection [of faults records w col]
    restore_entry_envelope [of fname records "pb_store faults" False c oid exported_at w]
  by simp

theorem round_trip_restore_witness:
  "fst (restore_collection_data (pb_store no_faults) (py ''users'') [example_record] False empty_world)
     = Inr \<lparr>created = 1, updated = 0, skipped = 0, errors = 0\<rparr>
   \<and> fst (restore_collection_data (pb_store no_faults) (py ''users'') [example_record] False
            (snd (restore_collection_data (pb_store no_faults) (py ''users'') [example_record] False empty_world)))
     = Inr \<lparr>created = 0, updated = 1, skipped = 0, errors = 0\<rparr>
   \<and> restore_entry (pb_store no_faults) False
         (py ''users.json'', File (Some (envelope (py ''users'') (py ''abcdefghijkl'') (py ''t'') [example_record])))
         no_counts empty_world
       = restore_collection_data (pb_store no_faults) (py ''users'') [example_record] False empty_world"
proof -
  note t = round_trip_restore [of no_faults "[example_record]" empty_world "py ''users''"
      "py ''users.json''" "py ''users''" "py ''abcdefghijkl''" "py ''t''"]
  have h1: "\<forall>rq. no_faults rq = None"
    by (simp add: no_faults_def)
  have h2: "list_all has_identity [example_record]"
    by (simp add: example_record_def dict_get_def py_def)
  have h3: "distinct (map identity [example_record])"
    by simp
  have h4: "\<forall>r \<in> set [example_record]. srv_state empty_world (py ''users'', identity r) = None"
    by (simp add: empty_world_def)
  have h5: "endswith (py ''users.json'') (py ''.json'')" "py ''users.json'' \<noteq> py ''summary.json''"
    "py ''users'' = replace (py ''.json'') [] (py ''users.json'')"
    by code_simp+
  from t h1 h2 h3 h4 h5 show ?thesis
    by simp
qed

text \<open>
  C1 as the specification states it fails: it assumes only that the creates succeed.  When
  the updates of the store fail, the second restore reports an error and no update; and
  when two records of the envelope share an identity, the first restore creates one and
  updates it with the other.
\<close>

theorem round_trip_claim_counterexample:
  "fst (restore_collection_data (pb_store patch_faults) (py ''users'') [example_record] False empty_world)
     = Inr \<lparr>created = 1, updated = 0, skipped = 0, errors = 0\<rparr>
   \<and> fst (restore_collection_data (pb_store patch_faults) (py ''users'') [example_record] False
            (snd (restore_collection_data (pb_store patch_faults) (py ''users'') [example_record] False empty_world)))
     = Inr \<lparr>created = 0, updated = 0, skipped = 0, errors = 1\<rparr>
   \<and> fst (restore_collection_data (pb_store no_faults) (py ''users'') [example_record, example_record] False empty_world)
     = Inr \<lparr>created = 1, updated = 1, skipped = 0, errors = 0\<rparr>"
  by code_simp

section \<open>Properties of the restore: the role of \<open>summary.json\<close>\<close>

text \<open>
  C8 does not hold of the code.  The archive that \<open>backup_tenant\<close> builds holds its files
  under the directory of the run date.  With \<open>summary.json\<close> there, that directory is the data
  directory and the record of \<open>users.json\<close> is looked up and created.  Without it, the data
  directory is the extraction root, whose only entry is the directory of the run date:
  nothing is restored, no request is sent, and the totals are all zero.
\<close>

theorem summary_presence_changes_restore:
  "fst (restore_from_zip (pb_store no_faults) example_archive False empty_world)
     = Inr \<lparr>created = 1, updated = 0, skipped = 0, errors = 0\<rparr>
   \<and> trace (snd (restore_from_zip (pb_store no_faults) example_archive False empty_world))
     = [Get (py ''users'') (JStr (py ''r1'')),
        Post (py ''users'') [(py ''name'', JStr (py ''Ana'')), (py ''id'', JStr (py ''r1''))]]
   \<and> fst (restore_from_zip (pb_store no_faults) example_archive_no_summary False empty_world)
     = Inr \<lparr>created = 0, updated = 0, skipped = 0, errors = 0\<rparr>
   \<and> trace (snd (restore_from_zip (pb_store no_faults) example_archive_no_summary False empty_world)) = []"
  by code_simp

section \<open>Properties of the restore: the tenant filter\<close>











end

